theory Spec2Isabelle
  imports Main "HOL-Library.Word"
begin

unbundle bit_operations_syntax

type_synonym bytes = "8 word list"

section \<open>C strings\<close>

text \<open>
  A C string is modelled by the list of its characters; the terminating NUL is not part
  of the list, and a list that holds a NUL is read up to it, as the C library would.
\<close>

definition c_str :: "string \<Rightarrow> string" where
  "c_str s = takeWhile (\<lambda>c. c \<noteq> CHR 0x00) s"

text \<open>\<open>OPENSSL_strlcpy(dst, src, size)\<close>: at most \<open>size - 1\<close> characters are copied.\<close>

definition OPENSSL_strlcpy :: "string \<Rightarrow> nat \<Rightarrow> string" where
  "OPENSSL_strlcpy src sz = take (sz - 1) (c_str src)"

definition c_tolower :: "char \<Rightarrow> char" where
  "c_tolower c =
     (let n = (of_char c :: nat) in if 65 \<le> n \<and> n \<le> 90 then char_of (n + 32) else c)"

text \<open>\<open>strcasecmp(a, b) == 0\<close>, in the C locale.\<close>

definition strcasecmp_eq :: "string \<Rightarrow> string \<Rightarrow> bool" where
  "strcasecmp_eq a b = (map c_tolower a = map c_tolower b)"

text \<open>\<open>strncmp(p, q, n) == 0\<close> for a literal \<open>q\<close> of exactly \<open>n\<close> characters.\<close>

definition strncmp_eq :: "string \<Rightarrow> string \<Rightarrow> nat \<Rightarrow> bool" where
  "strncmp_eq p q n = (take n p = take n q)"

section \<open>Store: scheme candidates of \<open>OSSL_STORE_open_with_libctx\<close>\<close>

text \<open>
  The first part of \<open>OSSL_STORE_open_with_libctx\<close>: the array \<open>schemes\<close> with its
  counter \<open>schemes_n\<close>, as the list of its first \<open>schemes_n\<close> entries. The text before
  the first colon of the 255-character copy is the scheme; \<open>p\<close> is what follows the colon
  in the copy.
\<close>

definition store_schemes :: "string \<Rightarrow> string list" where
  "store_schemes uri =
     (let schemes = [''file''];
          scheme_copy = OPENSSL_strlcpy uri 256
      in if CHR '':'' \<in> set scheme_copy then
           (let scheme = takeWhile (\<lambda>c. c \<noteq> CHR '':'') scheme_copy;
                p = tl (dropWhile (\<lambda>c. c \<noteq> CHR '':'') scheme_copy)
            in if \<not> strcasecmp_eq scheme ''file'' then
                 (if strncmp_eq p ''//'' 2 then butlast schemes else schemes) @ [scheme]
               else schemes)
         else schemes)"

section \<open>Store: loaders, sessions and the error queue\<close>

text \<open>Reason codes that the modelled functions put on the error queue (\<open>ERR_raise\<close>).\<close>

datatype store_reason =
    OSSL_STORE_R_LOADING_STARTED
  | OSSL_STORE_R_UNSUPPORTED_OPERATION
  | ERR_R_MALLOC_FAILURE

text \<open>A call through a function pointer that is \<open>NULL\<close>.\<close>

datatype fault = NullFunctionCall

record OSSL_STORE_INFO =
  info_type :: int
  info_data :: bytes

definition OSSL_STORE_INFO_get_type :: "OSSL_STORE_INFO \<Rightarrow> int" where
  "OSSL_STORE_INFO_get_type info = info_type info"

text \<open>The value of the macro in \<open>openssl/store.h\<close>, which is not among the sources.\<close>

definition OSSL_STORE_INFO_NAME :: int where
  "OSSL_STORE_INFO_NAME = 1"

datatype param_key =
    OSSL_STORE_PARAM_EXPECT
  | OSSL_STORE_PARAM_SUBJECT
  | OSSL_STORE_PARAM_ISSUER
  | OSSL_STORE_PARAM_SERIAL
  | OSSL_STORE_PARAM_DIGEST
  | OSSL_STORE_PARAM_FINGERPRINT
  | OSSL_STORE_PARAM_ALIAS
  | OSSL_STORE_PARAM_PROPERTIES

datatype OSSL_PARAM =
    PARAM_int param_key int
  | PARAM_utf8_string param_key string
  | PARAM_octet_string param_key bytes
  | PARAM_BN param_key int

type_synonym X509_NAME = "(string \<times> string) list"

record EVP_MD =
  md_type :: int
  md_name :: string

record OSSL_STORE_SEARCH =
  search_type :: int
  search_name :: "X509_NAME option"
  search_serial :: "int option"
  search_digest :: "EVP_MD option"
  search_string :: bytes

text \<open>The search types of \<open>openssl/store.h\<close>.\<close>

definition OSSL_STORE_SEARCH_BY_NAME :: int where
  "OSSL_STORE_SEARCH_BY_NAME = 1"
definition OSSL_STORE_SEARCH_BY_ISSUER_SERIAL :: int where
  "OSSL_STORE_SEARCH_BY_ISSUER_SERIAL = 2"
definition OSSL_STORE_SEARCH_BY_KEY_FINGERPRINT :: int where
  "OSSL_STORE_SEARCH_BY_KEY_FINGERPRINT = 3"
definition OSSL_STORE_SEARCH_BY_ALIAS :: int where
  "OSSL_STORE_SEARCH_BY_ALIAS = 4"

text \<open>
  \<open>OSSL_STORE_LOADER\<close>: a table of function pointers. \<open>'l\<close> is the state behind an
  \<open>OSSL_STORE_LOADER_CTX *\<close>, \<open>'pw\<close> the passphrase data of the session. A pointer that
  the code tests against \<open>NULL\<close>, or that a provider need not supply, is an option. A
  function that works on the loader context returns the context it leaves behind.
  \<open>p_load\<close> stands for the provider's load function together with the callback
  \<open>ossl_store_handle_load_result\<close> that stores the object in \<open>load_data.v\<close>.
\<close>

record ('l, 'pw) OSSL_STORE_LOADER =
  scheme :: string
  open_with_libctx :: "(string \<Rightarrow> 'l option) option"
  open_legacy :: "string \<Rightarrow> 'l option"
  load :: "'l \<Rightarrow> OSSL_STORE_INFO option \<times> 'l"
  eof :: "'l \<Rightarrow> int"
  error :: "'l \<Rightarrow> int"
  find :: "('l \<Rightarrow> OSSL_STORE_SEARCH \<Rightarrow> int \<times> 'l) option"
  expect :: "('l \<Rightarrow> int \<Rightarrow> int \<times> 'l) option"
  p_open :: "string \<Rightarrow> 'l option"
  p_load :: "'l \<Rightarrow> 'pw \<Rightarrow> int \<times> OSSL_STORE_INFO option \<times> 'l \<times> 'pw"
  p_eof :: "'l \<Rightarrow> int"
  p_set_ctx_params :: "('l \<Rightarrow> OSSL_PARAM list \<Rightarrow> int \<times> 'l) option"
  p_close :: "'l \<Rightarrow> int"

text \<open>
  \<open>OSSL_STORE_CTX\<close>. \<open>'pd\<close> is what \<open>post_process_data\<close> points to; the hook returns
  the object to go on with (\<open>None\<close> for \<open>NULL\<close>: ignore it) and its data.
\<close>

record ('l, 'pw, 'pd) OSSL_STORE_CTX =
  loader :: "('l, 'pw) OSSL_STORE_LOADER"
  fetched_loader :: "('l, 'pw) OSSL_STORE_LOADER option"
  loader_ctx :: 'l
  post_process :: "(OSSL_STORE_INFO \<Rightarrow> 'pd \<Rightarrow> OSSL_STORE_INFO option \<times> 'pd) option"
  post_process_data :: 'pd
  expected_type :: int
  loading :: int
  error_flag :: int
  cached_info :: "OSSL_STORE_INFO list option"
  pwdata :: 'pw
  properties :: "string option"

text \<open>
  What the store functions call and the sources do not hold: the loader registry, the
  provider fetch, the parameter builder (whose allocations may fail) and the passphrase
  cache.
\<close>

record ('l, 'pw) store_env =
  ossl_store_get0_loader_int :: "string \<Rightarrow> ('l, 'pw) OSSL_STORE_LOADER option"
  OSSL_STORE_LOADER_fetch :: "string \<Rightarrow> string option \<Rightarrow> ('l, 'pw) OSSL_STORE_LOADER option"
  OSSL_PARAM_BLD_new_ok :: bool
  OSSL_PARAM_BLD_push_ok :: "OSSL_PARAM \<Rightarrow> bool"
  i2d_X509_NAME :: "X509_NAME option \<Rightarrow> bytes"
  ASN1_INTEGER_to_BN :: "int option \<Rightarrow> int option"
  EVP_MD_name :: "EVP_MD option \<Rightarrow> string"
  ossl_pw_clear_passphrase_cache :: "'pw \<Rightarrow> 'pw"

subsection \<open>The loader loop of \<open>OSSL_STORE_open_with_libctx\<close>\<close>

text \<open>
  The locals \<open>loader\<close>, \<open>fetched_loader\<close> and \<open>loader_ctx\<close> of the function.
\<close>

record ('l, 'pw) open_locals =
  ol_loader :: "('l, 'pw) OSSL_STORE_LOADER option"
  ol_fetched_loader :: "('l, 'pw) OSSL_STORE_LOADER option"
  ol_loader_ctx :: "'l option"

text \<open>
  One round of the \<open>for\<close> loop, for the scheme \<open>s\<close>. When \<open>p_set_ctx_params\<close> fails
  the loader context is closed and \<open>fetched_loader\<close> reset, while \<open>loader_ctx\<close> keeps
  its value, as in the source.
\<close>

definition open_try ::
  "('l, 'pw) store_env \<Rightarrow> string \<Rightarrow> string option \<Rightarrow> string \<Rightarrow> ('l, 'pw) open_locals
     \<Rightarrow> fault + ('l, 'pw) open_locals" where
  "open_try E uri propq s st =
     (let st1 = st\<lparr>ol_loader := ossl_store_get0_loader_int E s\<rparr>;
          st2 = (case ol_loader st1 of
                   Some l \<Rightarrow>
                     (case open_with_libctx l of
                        Some f \<Rightarrow> st1\<lparr>ol_loader_ctx := f uri\<rparr>
                      | None \<Rightarrow> st1\<lparr>ol_loader_ctx := open_legacy l uri\<rparr>)
                 | None \<Rightarrow> st1)
      in if ol_loader st2 = None then
           (case OSSL_STORE_LOADER_fetch E s propq of
              None \<Rightarrow> Inr (st2\<lparr>ol_fetched_loader := None\<rparr>)
            | Some fl \<Rightarrow>
                (case p_open fl uri of
                   None \<Rightarrow>
                     Inr (st2\<lparr>ol_loader_ctx := None, ol_fetched_loader := None, ol_loader := None\<rparr>)
                 | Some lc \<Rightarrow>
                     (case propq of
                        None \<Rightarrow>
                          Inr (st2\<lparr>ol_loader_ctx := Some lc, ol_fetched_loader := Some fl,
                                   ol_loader := Some fl\<rparr>)
                      | Some q \<Rightarrow>
                          (case p_set_ctx_params fl of
                             None \<Rightarrow> Inl NullFunctionCall
                           | Some set_params \<Rightarrow>
                               (case set_params lc [PARAM_utf8_string OSSL_STORE_PARAM_PROPERTIES q] of
                                  (r, lc') \<Rightarrow>
                                    if r = 0 then
                                      Inr (st2\<lparr>ol_loader_ctx := Some lc', ol_fetched_loader := None,
                                               ol_loader := None\<rparr>)
                                    else
                                      Inr (st2\<lparr>ol_loader_ctx := Some lc', ol_fetched_loader := Some fl,
                                               ol_loader := Some fl\<rparr>))))))
         else Inr st2)"

text \<open>
  The loop \<open>for (i = 0; loader_ctx == NULL && i < schemes_n; i++)\<close> over the candidate
  list. Beside the locals it returns the schemes it looked up, in order: the lines
  \<open>Looking up scheme ...\<close> of the trace.
\<close>

fun open_loop ::
  "('l, 'pw) store_env \<Rightarrow> string \<Rightarrow> string option \<Rightarrow> string list \<Rightarrow> ('l, 'pw) open_locals
     \<Rightarrow> string list \<Rightarrow> fault + (('l, 'pw) open_locals \<times> string list)" where
  "open_loop E uri propq [] st tr = Inr (st, tr)"
| "open_loop E uri propq (s # ss) st tr =
     (if ol_loader_ctx st \<noteq> None then Inr (st, tr)
      else (case open_try E uri propq s st of
              Inl f \<Rightarrow> Inl f
            | Inr st' \<Rightarrow> open_loop E uri propq ss st' (tr @ [s])))"

text \<open>
  \<open>OSSL_STORE_open_with_libctx\<close> up to the test \<open>loader_ctx == NULL\<close> after the loop:
  the candidate list, then the loop from \<open>NULL\<close> locals.
\<close>

definition open_resolve ::
  "('l, 'pw) store_env \<Rightarrow> string \<Rightarrow> string option
     \<Rightarrow> fault + (('l, 'pw) open_locals \<times> string list)" where
  "open_resolve E uri propq =
     open_loop E uri propq (store_schemes uri)
       \<lparr>ol_loader = None, ol_fetched_loader = None, ol_loader_ctx = None\<rparr> []"

subsection \<open>Session operations\<close>

definition OSSL_STORE_eof :: "('l, 'pw, 'pd) OSSL_STORE_CTX \<Rightarrow> int" where
  "OSSL_STORE_eof ctx =
     (case fetched_loader ctx of
        Some fl \<Rightarrow> p_eof (loader ctx) (loader_ctx ctx)
      | None \<Rightarrow> eof (loader ctx) (loader_ctx ctx))"

definition OSSL_STORE_error :: "('l, 'pw, 'pd) OSSL_STORE_CTX \<Rightarrow> int" where
  "OSSL_STORE_error ctx =
     (case fetched_loader ctx of
        Some fl \<Rightarrow> error_flag ctx
      | None \<Rightarrow> error (loader ctx) (loader_ctx ctx))"

text \<open>
  \<open>OSSL_STORE_expect\<close>: the return value, the session afterwards and the reasons raised.
  The deprecated loader call is compiled in (\<open>OPENSSL_NO_DEPRECATED_3_0\<close> undefined).
\<close>

definition OSSL_STORE_expect ::
  "('l, 'pw, 'pd) OSSL_STORE_CTX \<Rightarrow> int
     \<Rightarrow> int \<times> ('l, 'pw, 'pd) OSSL_STORE_CTX \<times> store_reason list" where
  "OSSL_STORE_expect ctx expected =
     (if loading ctx \<noteq> 0 then (0, ctx, [OSSL_STORE_R_LOADING_STARTED])
      else
        (let ctx1 = ctx\<lparr>expected_type := expected\<rparr>;
             (ret1, ctx2) =
               (case fetched_loader ctx1 of
                  Some fl \<Rightarrow>
                    (case p_set_ctx_params fl of
                       Some set_params \<Rightarrow>
                         (case set_params (loader_ctx ctx1) [PARAM_int OSSL_STORE_PARAM_EXPECT expected] of
                            (r, lc) \<Rightarrow> (r, ctx1\<lparr>loader_ctx := lc\<rparr>))
                     | None \<Rightarrow> (1, ctx1))
                | None \<Rightarrow> (1, ctx1));
             (ret2, ctx3) =
               (case fetched_loader ctx2 of
                  None \<Rightarrow>
                    (case expect (loader ctx2) of
                       Some f \<Rightarrow>
                         (case f (loader_ctx ctx2) expected of
                            (r, lc) \<Rightarrow> (r, ctx2\<lparr>loader_ctx := lc\<rparr>))
                     | None \<Rightarrow> (ret1, ctx2))
                | Some fl \<Rightarrow> (ret1, ctx2))
         in (ret2, ctx3, [])))"

text \<open>
  The \<open>switch\<close> of \<open>OSSL_STORE_find\<close>: the parameters pushed to the builder, or
  \<open>None\<close> when \<open>ret\<close> stays 0.
\<close>

definition find_params ::
  "('l, 'pw) store_env \<Rightarrow> OSSL_STORE_SEARCH \<Rightarrow> OSSL_PARAM list option" where
  "find_params E search =
     (let name_der = i2d_X509_NAME E (search_name search) in
      if search_type search = OSSL_STORE_SEARCH_BY_NAME then
        (if 0 < length name_der
            \<and> OSSL_PARAM_BLD_push_ok E (PARAM_octet_string OSSL_STORE_PARAM_SUBJECT name_der)
         then Some [PARAM_octet_string OSSL_STORE_PARAM_SUBJECT name_der] else None)
      else if search_type search = OSSL_STORE_SEARCH_BY_ISSUER_SERIAL then
        (if 0 < length name_der then
           (case ASN1_INTEGER_to_BN E (search_serial search) of
              None \<Rightarrow> None
            | Some number \<Rightarrow>
                if OSSL_PARAM_BLD_push_ok E (PARAM_octet_string OSSL_STORE_PARAM_ISSUER name_der)
                   \<and> OSSL_PARAM_BLD_push_ok E (PARAM_BN OSSL_STORE_PARAM_SERIAL number)
                then Some [PARAM_octet_string OSSL_STORE_PARAM_ISSUER name_der,
                           PARAM_BN OSSL_STORE_PARAM_SERIAL number]
                else None)
         else None)
      else if search_type search = OSSL_STORE_SEARCH_BY_KEY_FINGERPRINT then
        (let d = PARAM_utf8_string OSSL_STORE_PARAM_DIGEST
                   (EVP_MD_name E (search_digest search));
             f = PARAM_octet_string OSSL_STORE_PARAM_FINGERPRINT (search_string search)
         in if OSSL_PARAM_BLD_push_ok E d \<and> OSSL_PARAM_BLD_push_ok E f
            then Some [d, f] else None)
      else if search_type search = OSSL_STORE_SEARCH_BY_ALIAS then
        (let a = PARAM_utf8_string OSSL_STORE_PARAM_ALIAS
                   (map (\<lambda>b. char_of (unat b)) (search_string search))
         in if OSSL_PARAM_BLD_push_ok E a then Some [a] else None)
      else None)"

definition OSSL_STORE_find ::
  "('l, 'pw) store_env \<Rightarrow> ('l, 'pw, 'pd) OSSL_STORE_CTX \<Rightarrow> OSSL_STORE_SEARCH
     \<Rightarrow> int \<times> ('l, 'pw, 'pd) OSSL_STORE_CTX \<times> store_reason list" where
  "OSSL_STORE_find E ctx search =
     (if loading ctx \<noteq> 0 then (0, ctx, [OSSL_STORE_R_LOADING_STARTED])
      else
        (case fetched_loader ctx of
           Some fl \<Rightarrow>
             (case p_set_ctx_params fl of
                None \<Rightarrow> (0, ctx, [OSSL_STORE_R_UNSUPPORTED_OPERATION])
              | Some set_params \<Rightarrow>
                  if \<not> OSSL_PARAM_BLD_new_ok E then (0, ctx, [ERR_R_MALLOC_FAILURE])
                  else
                    (case find_params E search of
                       None \<Rightarrow> (0, ctx, [])
                     | Some params \<Rightarrow>
                         (case set_params (loader_ctx ctx) params of
                            (r, lc) \<Rightarrow> (r, ctx\<lparr>loader_ctx := lc\<rparr>, []))))
         | None \<Rightarrow>
             (case find (loader ctx) of
                None \<Rightarrow> (0, ctx, [OSSL_STORE_R_UNSUPPORTED_OPERATION])
              | Some f \<Rightarrow>
                  (case f (loader_ctx ctx) search of
                     (r, lc) \<Rightarrow> (r, ctx\<lparr>loader_ctx := lc\<rparr>, [])))))"

text \<open>
  The body of \<open>OSSL_STORE_load\<close> from the label \<open>again\<close> is split in two. First the
  object is taken from the cache or pulled from the loader: \<open>Inl\<close> is the
  \<open>return NULL\<close> after a failed \<open>p_load\<close>, \<open>Inr\<close> the value of \<open>v\<close> to go on with.
\<close>

definition load_pull ::
  "('l, 'pw, 'pd) OSSL_STORE_CTX
     \<Rightarrow> ('l, 'pw, 'pd) OSSL_STORE_CTX + (OSSL_STORE_INFO option \<times> ('l, 'pw, 'pd) OSSL_STORE_CTX)" where
  "load_pull ctx =
     (let ctx1 = (if cached_info ctx = Some [] then ctx\<lparr>cached_info := None\<rparr> else ctx) in
      case cached_info ctx1 of
        Some (info # cache) \<Rightarrow> Inr (Some info, ctx1\<lparr>cached_info := Some cache\<rparr>)
      | _ \<Rightarrow>
          (case fetched_loader ctx1 of
             Some fl \<Rightarrow>
               (case p_load fl (loader_ctx ctx1) (pwdata ctx1) of
                  (r, v, lc, pw) \<Rightarrow>
                    (let ctx2 = ctx1\<lparr>loader_ctx := lc, pwdata := pw\<rparr> in
                     if r = 0 then
                       Inl (if OSSL_STORE_eof ctx2 = 0 then ctx2\<lparr>error_flag := 1\<rparr> else ctx2)
                     else Inr (v, ctx2)))
           | None \<Rightarrow>
               (case load (loader ctx1) (loader_ctx ctx1) of
                  (v, lc) \<Rightarrow> Inr (v, ctx1\<lparr>loader_ctx := lc\<rparr>))))"

text \<open>One pass from \<open>again\<close>: either \<open>goto again\<close> or \<open>return\<close>.\<close>

datatype 'c load_step = Again 'c | Return "OSSL_STORE_INFO option" 'c

definition load_pass ::
  "('l, 'pw) store_env \<Rightarrow> ('l, 'pw, 'pd) OSSL_STORE_CTX
     \<Rightarrow> ('l, 'pw, 'pd) OSSL_STORE_CTX load_step" where
  "load_pass E ctx =
     (if OSSL_STORE_eof ctx \<noteq> 0 then Return None ctx
      else
        (case load_pull ctx of
           Inl ctx2 \<Rightarrow> Return None ctx2
         | Inr (v, ctx2) \<Rightarrow>
             (case
                (case (post_process ctx2, v) of
                   (Some hook, Some info) \<Rightarrow>
                     (case hook info (post_process_data ctx2) of
                        (v', pd) \<Rightarrow> (v', ctx2\<lparr>post_process_data := pd\<rparr>, v' = None))
                 | _ \<Rightarrow> (v, ctx2, False))
              of (v3, ctx3, ignored) \<Rightarrow>
                if ignored then Again ctx3
                else if (case v3 of
                           Some info \<Rightarrow>
                             expected_type ctx3 \<noteq> 0
                             \<and> OSSL_STORE_INFO_get_type info \<noteq> OSSL_STORE_INFO_NAME
                             \<and> OSSL_STORE_INFO_get_type info \<noteq> 0
                             \<and> expected_type ctx3 \<noteq> OSSL_STORE_INFO_get_type info
                         | None \<Rightarrow> False)
                then Again ctx3
                else Return v3 (ctx3\<lparr>pwdata := ossl_pw_clear_passphrase_cache E (pwdata ctx3)\<rparr>))))"

text \<open>
  The loop: each \<open>goto again\<close> is a recursive call; a run that never leaves the loop has
  no result (\<open>None\<close>). The result is the object returned (\<open>None\<close> for \<open>NULL\<close>) and the
  session afterwards.
\<close>

partial_function (option) load_again ::
  "('l, 'pw) store_env \<Rightarrow> ('l, 'pw, 'pd) OSSL_STORE_CTX
     \<Rightarrow> (OSSL_STORE_INFO option \<times> ('l, 'pw, 'pd) OSSL_STORE_CTX) option" where
  "load_again E ctx =
     (case load_pass E ctx of
        Again ctx' \<Rightarrow> load_again E ctx'
      | Return v ctx' \<Rightarrow> Some (v, ctx'))"

definition OSSL_STORE_load ::
  "('l, 'pw) store_env \<Rightarrow> ('l, 'pw, 'pd) OSSL_STORE_CTX
     \<Rightarrow> (OSSL_STORE_INFO option \<times> ('l, 'pw, 'pd) OSSL_STORE_CTX) option" where
  "OSSL_STORE_load E ctx = load_again E (ctx\<lparr>loading := 1\<rparr>)"

text \<open>
  A caller's later calls on a session, one after the other. A call of
  \<open>OSSL_STORE_load\<close> that does not return ends the run without a result.
\<close>

datatype store_call =
    Call_load
  | Call_expect int
  | Call_find OSSL_STORE_SEARCH

fun store_calls ::
  "('l, 'pw) store_env \<Rightarrow> store_call list \<Rightarrow> ('l, 'pw, 'pd) OSSL_STORE_CTX
     \<Rightarrow> ('l, 'pw, 'pd) OSSL_STORE_CTX option" where
  "store_calls E [] ctx = Some ctx"
| "store_calls E (Call_load # cs) ctx =
     (case OSSL_STORE_load E ctx of
        None \<Rightarrow> None
      | Some (v, ctx') \<Rightarrow> store_calls E cs ctx')"
| "store_calls E (Call_expect t # cs) ctx =
     (case OSSL_STORE_expect ctx t of (r, ctx', errs) \<Rightarrow> store_calls E cs ctx')"
| "store_calls E (Call_find search # cs) ctx =
     (case OSSL_STORE_find E ctx search of (r, ctx', errs) \<Rightarrow> store_calls E cs ctx')"

section \<open>CMP message protection\<close>

text \<open>
  Reason codes raised with \<open>CMPerr\<close> by the functions modelled here. What the library
  functions they call put on the error queue is not recorded.
\<close>

datatype cmp_reason =
    CMP_R_UNKNOWN_ALGORITHM_ID
  | CMP_R_MISSING_PBM_SECRET
  | CMP_R_ERROR_CALCULATING_PROTECTION
  | CMP_R_WRONG_ALGORITHM_OID
  | CMP_R_MISSING_KEY_INPUT_FOR_CREATING_PROTECTION
  | CMP_R_UNSUPPORTED_KEY_TYPE
  | CMP_R_CERT_AND_KEY_DO_NOT_MATCH
  | CMP_R_MISSING_SENDER_IDENTIFICATION
  | CMP_R_ERROR_PROTECTING_MESSAGE

subsection \<open>Data\<close>

text \<open>
  \<open>ASN1_STRING\<close> (and \<open>ASN1_BIT_STRING\<close>, \<open>ASN1_OCTET_STRING\<close>): the data with its
  length, the type tag and the flags, a C \<open>long\<close> on which only bitwise operations are
  done.
\<close>

record ASN1_STRING =
  s_data :: bytes
  s_type :: int
  s_flags :: int

text \<open>
  Macros of \<open>openssl/asn1.h\<close> and \<open>openssl/obj_mac.h\<close>, which are not among the
  sources. An \<open>ASN1_OBJECT\<close> is modelled by its NID.
\<close>

definition ASN1_STRING_FLAG_BITS_LEFT :: int where
  "ASN1_STRING_FLAG_BITS_LEFT = 0x08"
definition V_ASN1_UNDEF :: int where
  "V_ASN1_UNDEF = -1"
definition V_ASN1_SEQUENCE :: int where
  "V_ASN1_SEQUENCE = 16"
definition NID_undef :: int where
  "NID_undef = 0"
definition NID_id_PasswordBasedMAC :: int where
  "NID_id_PasswordBasedMAC = 782"

text \<open>
  \<open>X509_ALGOR\<close>: the algorithm object (a pointer, so an option) and the parameter, an
  \<open>ASN1_TYPE\<close> of a type tag and a value.
\<close>

record X509_ALGOR =
  algorithm :: "int option"
  parameter :: "(int \<times> ASN1_STRING) option"

datatype X509 = X509 (cert_der: bytes)

datatype EVP_PKEY = EVP_PKEY (EVP_PKEY_id: int) (pkey_data: bytes)

datatype GENERAL_NAME = GEN_DIRNAME X509_NAME | GEN_OTHER int bytes

record OSSL_CRMF_PBMPARAMETER =
  pbm_salt :: bytes
  pbm_owf_nid :: int
  pbm_iterationCount :: int
  pbm_mac_nid :: int

record OSSL_CMP_PKIHEADER =
  sender :: "GENERAL_NAME option"
  senderKID :: "bytes option"
  protectionAlg :: "X509_ALGOR option"
  header_rest :: bytes

record OSSL_CMP_MSG =
  header :: OSSL_CMP_PKIHEADER
  body :: bytes
  protection :: "ASN1_STRING option"
  extraCerts :: "X509 list option"

record OSSL_CMP_CTX =
  secretValue :: "bytes option"
  referenceValue :: "bytes option"
  cert :: "X509 option"
  pkey :: "EVP_PKEY option"
  untrusted_certs :: "X509 list option"
  extraCertsOut :: "X509 list option"
  unprotectedSend :: int
  digest :: EVP_MD
  pbm_slen :: nat
  pbm_owf :: EVP_MD
  pbm_itercnt :: int
  pbm_mac :: int

text \<open>
  The library functions that the protection code calls and the sources do not hold, as
  parameters: encoders and decoders, the MAC and signature primitives, the object
  tables, the certificate functions and the allocators. A result \<open>None\<close> is the
  \<open>NULL\<close> or negative return of the C function.
\<close>

datatype alloc_site = Alloc_ASN1_STRING_set | Alloc_sk_X509_new_null | Alloc_sk_X509_insert
  | Alloc_senderKID

record cmp_env =
  OSSL_CRMF_pbmp_new :: "nat \<Rightarrow> int \<Rightarrow> int \<Rightarrow> int \<Rightarrow> OSSL_CRMF_PBMPARAMETER option"
  i2d_OSSL_CRMF_PBMPARAMETER :: "OSSL_CRMF_PBMPARAMETER \<Rightarrow> bytes option"
  d2i_OSSL_CRMF_PBMPARAMETER :: "bytes \<Rightarrow> OSSL_CRMF_PBMPARAMETER option"
  i2d_OSSL_CMP_PROTECTEDPART :: "OSSL_CMP_PKIHEADER \<Rightarrow> bytes \<Rightarrow> bytes option"
  OSSL_CRMF_pbm_new :: "OSSL_CRMF_PBMPARAMETER \<Rightarrow> bytes \<Rightarrow> bytes \<Rightarrow> bytes option"
  ASN1_item_sign_with_libctx ::
    "ASN1_STRING \<Rightarrow> OSSL_CMP_PKIHEADER \<Rightarrow> bytes \<Rightarrow> EVP_PKEY \<Rightarrow> EVP_MD \<Rightarrow> ASN1_STRING option"
  OBJ_find_sigid_algs :: "int \<Rightarrow> int option"
  EVP_get_digestbynid :: "int \<Rightarrow> EVP_MD option"
  OBJ_find_sigid_by_algs :: "int \<Rightarrow> int \<Rightarrow> int option"
  OBJ_nid2obj :: "int \<Rightarrow> int option"
  X509_check_private_key :: "X509 \<Rightarrow> EVP_PKEY \<Rightarrow> bool"
  X509_get0_subject_key_id :: "X509 \<Rightarrow> bytes option"
  X509_self_signed :: "X509 \<Rightarrow> bool"
  ossl_cmp_build_cert_chain :: "X509 list \<Rightarrow> X509 \<Rightarrow> X509 list option"
  ossl_cmp_general_name_is_NULL_DN :: "GENERAL_NAME option \<Rightarrow> bool"
  ASN1_STRING_new :: "ASN1_STRING option"
  ASN1_BIT_STRING_new :: "ASN1_STRING option"
  X509_ALGOR_new :: "X509_ALGOR option"
  alloc_ok :: "alloc_site \<Rightarrow> bool"

subsection \<open>Library helpers with a fixed meaning\<close>

definition OBJ_obj2nid :: "int option \<Rightarrow> int" where
  "OBJ_obj2nid obj = (case obj of None \<Rightarrow> NID_undef | Some n \<Rightarrow> n)"

definition EVP_MD_type :: "EVP_MD \<Rightarrow> int" where
  "EVP_MD_type md = md_type md"

text \<open>
  Modelled from the spec: the algorithm descriptor with its embedded parameters, read by
  \<open>X509_ALGOR_get0\<close> and built by \<open>X509_ALGOR_set0\<close> of \<open>crypto/asn1/x_algor.c\<close>,
  which are not among the sources. The first yields the object, the parameter type and
  the parameter value (\<open>V_ASN1_UNDEF\<close> and \<open>NULL\<close> without a parameter); the second
  stores them, dropping the parameter for \<open>V_ASN1_UNDEF\<close> and keeping the old one for
  type 0.
\<close>

definition X509_ALGOR_get0 :: "X509_ALGOR \<Rightarrow> int option \<times> int \<times> ASN1_STRING option" where
  "X509_ALGOR_get0 alg =
     (case parameter alg of
        None \<Rightarrow> (algorithm alg, V_ASN1_UNDEF, None)
      | Some (t, v) \<Rightarrow> (algorithm alg, t, Some v))"

definition X509_ALGOR_set0 ::
  "X509_ALGOR \<Rightarrow> int option \<Rightarrow> int \<Rightarrow> ASN1_STRING option \<Rightarrow> int \<times> X509_ALGOR" where
  "X509_ALGOR_set0 alg aobj ptype pval =
     (if ptype = 0 then (1, alg\<lparr>algorithm := aobj\<rparr>)
      else if ptype = V_ASN1_UNDEF then (1, alg\<lparr>algorithm := aobj, parameter := None\<rparr>)
      else (1, alg\<lparr>algorithm := aobj,
                   parameter := (case pval of None \<Rightarrow> None | Some v \<Rightarrow> Some (ptype, v))\<rparr>))"

text \<open>
  Modelled from the spec: the wrapping of bytes as a string, \<open>ASN1_STRING_set\<close> of
  \<open>crypto/asn1/asn1_lib.c\<close>, which is not among the sources
  (\<open>ASN1_BIT_STRING_set\<close> is the same function). A copy of the bytes replaces the
  data; type and flags stay. The copy is an allocation.
\<close>

definition ASN1_STRING_set :: "cmp_env \<Rightarrow> ASN1_STRING \<Rightarrow> bytes \<Rightarrow> ASN1_STRING option" where
  "ASN1_STRING_set E str d =
     (if alloc_ok E Alloc_ASN1_STRING_set then Some (str\<lparr>s_data := d\<rparr>) else None)"

definition ASN1_BIT_STRING_set :: "cmp_env \<Rightarrow> ASN1_STRING \<Rightarrow> bytes \<Rightarrow> ASN1_STRING option" where
  "ASN1_BIT_STRING_set E str d = ASN1_STRING_set E str d"

text \<open>
  Modelled from the spec: setting the sender key identifier of a header,
  \<open>ossl_cmp_hdr_set1_senderKID\<close> of \<open>cmp_hdr.c\<close>, which is not among the sources. It
  stores a copy of the identifier, an allocation.
\<close>

definition ossl_cmp_hdr_set1_senderKID ::
  "cmp_env \<Rightarrow> OSSL_CMP_PKIHEADER \<Rightarrow> bytes \<Rightarrow> int \<times> OSSL_CMP_PKIHEADER" where
  "ossl_cmp_hdr_set1_senderKID E hdr kid =
     (if alloc_ok E Alloc_senderKID then (1, hdr\<lparr>senderKID := Some kid\<rparr>) else (0, hdr))"

subsection \<open>\<open>ossl_cmp_calc_protection\<close>\<close>

text \<open>
  The result is the bit string (\<open>None\<close> for \<open>NULL\<close>) and the reasons raised. The
  assertion that \<open>ctx\<close> and \<open>msg\<close> are not \<open>NULL\<close> holds of every value of the
  record types, as does \<open>msg->header != NULL\<close>, which the C code takes for granted.
\<close>

definition ossl_cmp_calc_protection ::
  "cmp_env \<Rightarrow> OSSL_CMP_CTX \<Rightarrow> OSSL_CMP_MSG \<Rightarrow> ASN1_STRING option \<times> cmp_reason list" where
  "ossl_cmp_calc_protection E ctx msg =
     (case protectionAlg (header msg) of
        None \<Rightarrow> (None, [CMP_R_UNKNOWN_ALGORITHM_ID])
      | Some alg \<Rightarrow>
          (case X509_ALGOR_get0 alg of
             (algorOID, pptype, ppval) \<Rightarrow>
               if OBJ_obj2nid algorOID = NID_id_PasswordBasedMAC then
                 (case secretValue ctx of
                    None \<Rightarrow> (None, [CMP_R_MISSING_PBM_SECRET])
                  | Some secret \<Rightarrow>
                      (case ppval of
                         None \<Rightarrow> (None, [CMP_R_ERROR_CALCULATING_PROTECTION])
                       | Some pbm_str \<Rightarrow>
                           (case i2d_OSSL_CMP_PROTECTEDPART E (header msg) (body msg) of
                              None \<Rightarrow> (None, [CMP_R_ERROR_CALCULATING_PROTECTION])
                            | Some prot_part_der \<Rightarrow>
                                (case d2i_OSSL_CRMF_PBMPARAMETER E (s_data pbm_str) of
                                   None \<Rightarrow> (None, [CMP_R_WRONG_ALGORITHM_OID])
                                 | Some pbm \<Rightarrow>
                                     (case OSSL_CRMF_pbm_new E pbm prot_part_der secret of
                                        None \<Rightarrow> (None, [])
                                      | Some mac \<Rightarrow>
                                          (case ASN1_BIT_STRING_new E of
                                             None \<Rightarrow> (None, [])
                                           | Some prot0 \<Rightarrow>
                                               (let prot1 = prot0\<lparr>s_flags := s_flags prot0
                                                        AND NOT (ASN1_STRING_FLAG_BITS_LEFT OR 0x07)\<rparr>;
                                                    prot2 = prot1\<lparr>s_flags := s_flags prot1
                                                        OR ASN1_STRING_FLAG_BITS_LEFT\<rparr>
                                                in (ASN1_BIT_STRING_set E prot2 mac, []))))))))
               else
                 (case pkey ctx of
                    None \<Rightarrow> (None, [CMP_R_MISSING_KEY_INPUT_FOR_CREATING_PROTECTION])
                  | Some k \<Rightarrow>
                      (case (case OBJ_find_sigid_algs E (OBJ_obj2nid algorOID) of
                               None \<Rightarrow> None
                             | Some md_nid \<Rightarrow> EVP_get_digestbynid E md_nid) of
                         None \<Rightarrow> (None, [CMP_R_UNKNOWN_ALGORITHM_ID])
                       | Some md \<Rightarrow>
                           (case ASN1_BIT_STRING_new E of
                              None \<Rightarrow> (None, [])
                            | Some prot0 \<Rightarrow>
                                (ASN1_item_sign_with_libctx E prot0 (header msg) (body msg) k md,
                                 []))))))"

subsection \<open>\<open>ossl_cmp_msg_add_extraCerts\<close>\<close>

datatype X509_ADD_FLAG =
    X509_ADD_FLAG_UP_REF
  | X509_ADD_FLAG_PREPEND
  | X509_ADD_FLAG_NO_DUP
  | X509_ADD_FLAG_NO_SS

text \<open>
  Modelled from the spec: \<open>X509_add_cert\<close> and \<open>X509_add_certs\<close> of
  \<open>crypto/x509/x509_cmp.c\<close> are not among the sources. With the no-duplicates flag a
  certificate that is structurally already in the list is skipped; with the
  no-self-signed flag a self-signed one is skipped; otherwise it goes to the front with
  the prepend flag and to the end without. The insertion is an allocation and may fail.
  The result is the return value and the list, which the C code changes in place.
\<close>

definition X509_add_cert ::
  "cmp_env \<Rightarrow> X509 list \<Rightarrow> X509 \<Rightarrow> X509_ADD_FLAG set \<Rightarrow> int \<times> X509 list" where
  "X509_add_cert E sk c flags =
     (if X509_ADD_FLAG_NO_DUP \<in> flags \<and> c \<in> set sk then (1, sk)
      else if X509_ADD_FLAG_NO_SS \<in> flags \<and> X509_self_signed E c then (1, sk)
      else if \<not> alloc_ok E Alloc_sk_X509_insert then (0, sk)
      else (1, if X509_ADD_FLAG_PREPEND \<in> flags then c # sk else sk @ [c]))"

fun X509_add_certs_loop ::
  "cmp_env \<Rightarrow> X509 list \<Rightarrow> X509 list \<Rightarrow> X509_ADD_FLAG set \<Rightarrow> int \<times> X509 list" where
  "X509_add_certs_loop E sk [] flags = (1, sk)"
| "X509_add_certs_loop E sk (c # cs) flags =
     (case X509_add_cert E sk c flags of
        (r, sk') \<Rightarrow> if r = 0 then (0, sk') else X509_add_certs_loop E sk' cs flags)"

definition X509_add_certs ::
  "cmp_env \<Rightarrow> X509 list \<Rightarrow> X509 list option \<Rightarrow> X509_ADD_FLAG set \<Rightarrow> int \<times> X509 list" where
  "X509_add_certs E sk certs flags =
     (case certs of
        None \<Rightarrow> (1, sk)
      | Some cs \<Rightarrow>
          X509_add_certs_loop E sk
            (if X509_ADD_FLAG_PREPEND \<in> flags then rev cs else cs) flags)"

text \<open>
  The return value and the message afterwards. On a failure the list keeps what had
  been added to it.
\<close>

definition ossl_cmp_msg_add_extraCerts ::
  "cmp_env \<Rightarrow> OSSL_CMP_CTX \<Rightarrow> OSSL_CMP_MSG \<Rightarrow> int \<times> OSSL_CMP_MSG" where
  "ossl_cmp_msg_add_extraCerts E ctx msg =
     (if extraCerts msg = None \<and> \<not> alloc_ok E Alloc_sk_X509_new_null then (0, msg)
      else
        (let sk0 = (case extraCerts msg of None \<Rightarrow> [] | Some sk \<Rightarrow> sk);
             (r1, sk1) =
               (case (cert ctx, pkey ctx) of
                  (Some c, Some k) \<Rightarrow>
                    (case X509_add_cert E sk0 c
                            {X509_ADD_FLAG_UP_REF, X509_ADD_FLAG_NO_DUP, X509_ADD_FLAG_PREPEND} of
                       (r, sk) \<Rightarrow>
                         if r = 0 then (0, sk)
                         else
                           (case untrusted_certs ctx of
                              None \<Rightarrow> (1, sk)
                            | Some untrusted \<Rightarrow>
                                X509_add_certs E sk (ossl_cmp_build_cert_chain E untrusted c)
                                  {X509_ADD_FLAG_UP_REF, X509_ADD_FLAG_NO_DUP, X509_ADD_FLAG_NO_SS}))
                | _ \<Rightarrow> (1, sk0))
         in if r1 = 0 then (0, msg\<lparr>extraCerts := Some sk1\<rparr>)
            else
              (case X509_add_certs E sk1 (extraCertsOut ctx)
                      {X509_ADD_FLAG_UP_REF, X509_ADD_FLAG_NO_DUP} of
                 (r2, sk2) \<Rightarrow>
                   if r2 = 0 then (0, msg\<lparr>extraCerts := Some sk2\<rparr>)
                   else if length sk2 = 0 then (1, msg\<lparr>extraCerts := None\<rparr>)
                   else (1, msg\<lparr>extraCerts := Some sk2\<rparr>))))"

subsection \<open>The algorithm descriptors and the sender key identifier\<close>

text \<open>
  \<open>set_pbmac_algor\<close>: the return value and \<open>*alg\<close> afterwards. The result of
  \<open>X509_ALGOR_set0\<close> is not looked at.
\<close>

definition set_pbmac_algor ::
  "cmp_env \<Rightarrow> OSSL_CMP_CTX \<Rightarrow> X509_ALGOR option \<Rightarrow> int \<times> X509_ALGOR option" where
  "set_pbmac_algor E ctx alg =
     (case (OSSL_CRMF_pbmp_new E (pbm_slen ctx) (EVP_MD_type (pbm_owf ctx)) (pbm_itercnt ctx)
              (pbm_mac ctx),
            ASN1_STRING_new E) of
        (Some pbm, Some pbm_str0) \<Rightarrow>
          (case i2d_OSSL_CRMF_PBMPARAMETER E pbm of
             None \<Rightarrow> (0, alg)
           | Some pbm_der \<Rightarrow>
               (case ASN1_STRING_set E pbm_str0 pbm_der of
                  None \<Rightarrow> (0, alg)
                | Some pbm_str \<Rightarrow>
                    (case (case alg of None \<Rightarrow> X509_ALGOR_new E | Some a \<Rightarrow> Some a) of
                       None \<Rightarrow> (0, None)
                     | Some a \<Rightarrow>
                         (1, Some (snd (X509_ALGOR_set0 a (OBJ_nid2obj E NID_id_PasswordBasedMAC)
                                          V_ASN1_SEQUENCE (Some pbm_str)))))))
      | _ \<Rightarrow> (0, alg))"

text \<open>
  \<open>set_sig_algor\<close>; \<open>k\<close> is \<open>ctx->pkey\<close>, which the only caller has tested against
  \<open>NULL\<close>.
\<close>

definition set_sig_algor ::
  "cmp_env \<Rightarrow> OSSL_CMP_CTX \<Rightarrow> EVP_PKEY \<Rightarrow> X509_ALGOR option
     \<Rightarrow> int \<times> X509_ALGOR option \<times> cmp_reason list" where
  "set_sig_algor E ctx k alg =
     (case OBJ_find_sigid_by_algs E (EVP_MD_type (digest ctx)) (EVP_PKEY_id k) of
        None \<Rightarrow> (0, alg, [CMP_R_UNSUPPORTED_KEY_TYPE])
      | Some nid \<Rightarrow>
          (case OBJ_nid2obj E nid of
             None \<Rightarrow> (0, alg, [])
           | Some algo \<Rightarrow>
               (case (case alg of None \<Rightarrow> X509_ALGOR_new E | Some a \<Rightarrow> Some a) of
                  None \<Rightarrow> (0, None, [])
                | Some a \<Rightarrow>
                    (case X509_ALGOR_set0 a (Some algo) V_ASN1_UNDEF None of
                       (r, a') \<Rightarrow> if r \<noteq> 0 then (1, Some a', []) else (0, Some a', [])))))"

definition set_senderKID ::
  "cmp_env \<Rightarrow> OSSL_CMP_CTX \<Rightarrow> OSSL_CMP_MSG \<Rightarrow> bytes option \<Rightarrow> int \<times> OSSL_CMP_MSG" where
  "set_senderKID E ctx msg kid =
     (case (case kid of None \<Rightarrow> referenceValue ctx | Some i \<Rightarrow> Some i) of
        None \<Rightarrow> (1, msg)
      | Some i \<Rightarrow>
          (case ossl_cmp_hdr_set1_senderKID E (header msg) i of
             (r, hdr) \<Rightarrow> (r, msg\<lparr>header := hdr\<rparr>)))"

subsection \<open>\<open>ossl_cmp_msg_protect\<close>\<close>

text \<open>The removal of pre-existing protection at the head of the function.\<close>

definition protect_strip :: "OSSL_CMP_MSG \<Rightarrow> OSSL_CMP_MSG" where
  "protect_strip msg =
     msg\<lparr>header := (header msg)\<lparr>protectionAlg := None\<rparr>, protection := None\<rparr>"

text \<open>
  The chain \<open>if (ctx->secretValue != NULL) ... else if (ctx->cert != NULL && ctx->pkey
  != NULL) ... else ...\<close>: whether it got through without \<open>goto err\<close>, the message
  afterwards and the reasons raised.
\<close>

definition protect_credentials ::
  "cmp_env \<Rightarrow> OSSL_CMP_CTX \<Rightarrow> OSSL_CMP_MSG \<Rightarrow> bool \<times> OSSL_CMP_MSG \<times> cmp_reason list" where
  "protect_credentials E ctx msg =
     (case secretValue ctx of
        Some secret \<Rightarrow>
          (case set_pbmac_algor E ctx (protectionAlg (header msg)) of
             (r, alg) \<Rightarrow>
               (let msg1 = msg\<lparr>header := (header msg)\<lparr>protectionAlg := alg\<rparr>\<rparr> in
                if r = 0 then (False, msg1, [])
                else
                  (case set_senderKID E ctx msg1 None of
                     (r2, msg2) \<Rightarrow> (r2 \<noteq> 0, msg2, []))))
      | None \<Rightarrow>
          (case (cert ctx, pkey ctx) of
             (Some c, Some k) \<Rightarrow>
               if \<not> X509_check_private_key E c k then
                 (False, msg, [CMP_R_CERT_AND_KEY_DO_NOT_MATCH])
               else
                 (case set_sig_algor E ctx k (protectionAlg (header msg)) of
                    (r, alg, errs) \<Rightarrow>
                      (let msg1 = msg\<lparr>header := (header msg)\<lparr>protectionAlg := alg\<rparr>\<rparr> in
                       if r = 0 then (False, msg1, errs)
                       else
                         (case set_senderKID E ctx msg1 (X509_get0_subject_key_id E c) of
                            (r2, msg2) \<Rightarrow> (r2 \<noteq> 0, msg2, errs))))
           | _ \<Rightarrow> (False, msg, [CMP_R_MISSING_KEY_INPUT_FOR_CREATING_PROTECTION])))"

text \<open>
  The whole function: the return value, the message afterwards and the reasons raised,
  in order. Every \<open>goto err\<close> ends with \<open>CMP_R_ERROR_PROTECTING_MESSAGE\<close> and 0.
\<close>

definition ossl_cmp_msg_protect ::
  "cmp_env \<Rightarrow> OSSL_CMP_CTX \<Rightarrow> OSSL_CMP_MSG \<Rightarrow> int \<times> OSSL_CMP_MSG \<times> cmp_reason list" where
  "ossl_cmp_msg_protect E ctx msg =
     (let msg0 = protect_strip msg in
      if unprotectedSend ctx \<noteq> 0 then (1, msg0, [])
      else
        (case protect_credentials E ctx msg0 of
           (ok, msg1, e1) \<Rightarrow>
             if \<not> ok then (0, msg1, e1 @ [CMP_R_ERROR_PROTECTING_MESSAGE])
             else
               (case ossl_cmp_calc_protection E ctx msg1 of
                  (None, e2) \<Rightarrow>
                    (0, msg1\<lparr>protection := None\<rparr>, e1 @ e2 @ [CMP_R_ERROR_PROTECTING_MESSAGE])
                | (Some prot, e2) \<Rightarrow>
                    (case ossl_cmp_msg_add_extraCerts E ctx (msg1\<lparr>protection := Some prot\<rparr>) of
                       (r, msg3) \<Rightarrow>
                         if r = 0 then (0, msg3, e1 @ e2 @ [CMP_R_ERROR_PROTECTING_MESSAGE])
                         else if ossl_cmp_general_name_is_NULL_DN E (sender (header msg3))
                                 \<and> senderKID (header msg3) = None
                         then (0, msg3, e1 @ e2 @ [CMP_R_MISSING_SENDER_IDENTIFICATION,
                                                   CMP_R_ERROR_PROTECTING_MESSAGE])
                         else (1, msg3, e1 @ e2)))))"

subsection \<open>The named-bit-list form of a bit string\<close>

text \<open>
  Modelled from the spec: the "named bit list" encoding convention, under which trailing
  zero bits are trimmed per the standard bit-string rule. It is what the encoder
  \<open>i2c_ASN1_BIT_STRING\<close> of \<open>crypto/asn1/a_bitstr.c\<close>, not among the sources, does to
  a string without \<open>ASN1_STRING_FLAG_BITS_LEFT\<close>: trailing zero bytes are dropped, and
  the count of unused bits is the number of zero bits below the lowest set bit of the
  last byte left. With the flag the bytes are kept and the count is the low three bits
  of the flags.
\<close>

definition trailing_zero_bits :: "8 word \<Rightarrow> nat" where
  "trailing_zero_bits b = length (takeWhile (\<lambda>i. \<not> bit b i) [0..<8])"

definition named_bit_list :: "bytes \<Rightarrow> bytes \<times> nat" where
  "named_bit_list d =
     (let kept = rev (dropWhile (\<lambda>b. b = 0) (rev d))
      in if kept = [] then ([], 0) else (kept, trailing_zero_bits (last kept)))"

section \<open>What the calls on a session keep\<close>

text \<open>
  The relation between a session before and after a pull: the loading mark, the expected
  type and the loaders stay, and an error flag of 1 stays 1.
\<close>

definition session_kept ::
  "('l, 'pw, 'pd) OSSL_STORE_CTX \<Rightarrow> ('l, 'pw, 'pd) OSSL_STORE_CTX \<Rightarrow> bool" where
  "session_kept ctx c \<longleftrightarrow>
     loading c = loading ctx \<and> expected_type c = expected_type ctx
     \<and> fetched_loader c = fetched_loader ctx \<and> loader c = loader ctx
     \<and> (error_flag ctx = 1 \<longrightarrow> error_flag c = 1)"

section \<open>Concrete sessions, contexts and messages\<close>

text \<open>
  A loader over a counter as loader context, whose every entry point reports failure and
  which is never at the end of its data, and the registry and provider store that know
  no scheme.
\<close>

definition ex_loader :: "(nat, unit) OSSL_STORE_LOADER" where
  "ex_loader =
     \<lparr>scheme = ''file'', open_with_libctx = None, open_legacy = (\<lambda>uri. None),
      load = (\<lambda>l. (None, Suc l)), eof = (\<lambda>l. 0), error = (\<lambda>l. 0),
      find = None, expect = None, p_open = (\<lambda>uri. None),
      p_load = (\<lambda>l pw. (0, None, Suc l, pw)), p_eof = (\<lambda>l. 0),
      p_set_ctx_params = None, p_close = (\<lambda>l. 1)\<rparr>"

definition ex_store_env :: "(nat, unit) store_env" where
  "ex_store_env =
     \<lparr>ossl_store_get0_loader_int = (\<lambda>s. None),
      OSSL_STORE_LOADER_fetch = (\<lambda>s propq. None),
      OSSL_PARAM_BLD_new_ok = True,
      OSSL_PARAM_BLD_push_ok = (\<lambda>p. True),
      i2d_X509_NAME = (\<lambda>n. []),
      ASN1_INTEGER_to_BN = (\<lambda>i. i),
      EVP_MD_name = (\<lambda>md. []),
      ossl_pw_clear_passphrase_cache = (\<lambda>pw. pw)\<rparr>"

text \<open>A fresh session on a legacy loader, and one on a fetched loader.\<close>

definition ex_legacy_ctx :: "(nat, unit, unit) OSSL_STORE_CTX" where
  "ex_legacy_ctx =
     \<lparr>loader = ex_loader, fetched_loader = None, loader_ctx = 0, post_process = None,
      post_process_data = (), expected_type = 0, loading = 0, error_flag = 0,
      cached_info = None, pwdata = (), properties = None\<rparr>"

definition ex_fetched_ctx :: "(nat, unit, unit) OSSL_STORE_CTX" where
  "ex_fetched_ctx = ex_legacy_ctx\<lparr>fetched_loader := Some ex_loader\<rparr>"

definition ex_search :: OSSL_STORE_SEARCH where
  "ex_search =
     \<lparr>search_type = OSSL_STORE_SEARCH_BY_ALIAS, search_name = None, search_serial = None,
      search_digest = None, search_string = []\<rparr>"

text \<open>
  Library functions for a sample run of the protection code: every allocation succeeds,
  the parameter encoding is the salt, the canonical encoding of header and body is the
  body, the MAC is the two bytes \<open>A0 00\<close>, no signature algorithm is known, and a
  name is the NULL-DN when it is absent or a directory name without entries.
\<close>

definition ex_cmp_env :: cmp_env where
  "ex_cmp_env =
     \<lparr>OSSL_CRMF_pbmp_new = (\<lambda>slen owf itercnt mac.
         Some \<lparr>pbm_salt = replicate slen 0, pbm_owf_nid = owf, pbm_iterationCount = itercnt,
               pbm_mac_nid = mac\<rparr>),
      i2d_OSSL_CRMF_PBMPARAMETER = (\<lambda>pbm. Some (pbm_salt pbm)),
      d2i_OSSL_CRMF_PBMPARAMETER = (\<lambda>d.
         Some \<lparr>pbm_salt = d, pbm_owf_nid = 0, pbm_iterationCount = 0, pbm_mac_nid = 0\<rparr>),
      i2d_OSSL_CMP_PROTECTEDPART = (\<lambda>hdr b. Some b),
      OSSL_CRMF_pbm_new = (\<lambda>pbm d secret. Some [0xA0, 0x00]),
      ASN1_item_sign_with_libctx = (\<lambda>prot hdr b k md. None),
      OBJ_find_sigid_algs = (\<lambda>nid. None),
      EVP_get_digestbynid = (\<lambda>nid. None),
      OBJ_find_sigid_by_algs = (\<lambda>md k. None),
      OBJ_nid2obj = (\<lambda>nid. Some nid),
      X509_check_private_key = (\<lambda>c k. True),
      X509_get0_subject_key_id = (\<lambda>c. None),
      X509_self_signed = (\<lambda>c. False),
      ossl_cmp_build_cert_chain = (\<lambda>pool c. None),
      ossl_cmp_general_name_is_NULL_DN = (\<lambda>n. n = None \<or> n = Some (GEN_DIRNAME [])),
      ASN1_STRING_new = Some \<lparr>s_data = [], s_type = 4, s_flags = 0\<rparr>,
      ASN1_BIT_STRING_new = Some \<lparr>s_data = [], s_type = 3, s_flags = 0\<rparr>,
      X509_ALGOR_new = Some \<lparr>algorithm = Some 0, parameter = None\<rparr>,
      alloc_ok = (\<lambda>site. True)\<rparr>"

text \<open>
  A context with a shared secret and no reference value, certificate or key, and a
  message without sender, sender key identifier, protection or extra certificates.
\<close>

definition ex_cmp_ctx :: OSSL_CMP_CTX where
  "ex_cmp_ctx =
     \<lparr>secretValue = Some [0x68, 0x75, 0x6E], referenceValue = None, cert = None, pkey = None,
      untrusted_certs = None, extraCertsOut = None, unprotectedSend = 0,
      digest = \<lparr>md_type = 672, md_name = ''SHA256''\<rparr>, pbm_slen = 2,
      pbm_owf = \<lparr>md_type = 672, md_name = ''SHA256''\<rparr>, pbm_itercnt = 500, pbm_mac = 799\<rparr>"

definition ex_cmp_msg :: OSSL_CMP_MSG where
  "ex_cmp_msg =
     \<lparr>header = \<lparr>sender = None, senderKID = None, protectionAlg = None, header_rest = []\<rparr>,
      body = [0x30, 0x00], protection = None, extraCerts = None\<rparr>"

text \<open>The descriptor that \<open>set_pbmac_algor\<close> builds in the sample run, and one without parameters.\<close>

definition ex_pbm_alg :: X509_ALGOR where
  "ex_pbm_alg =
     \<lparr>algorithm = Some NID_id_PasswordBasedMAC,
      parameter = Some (V_ASN1_SEQUENCE, \<lparr>s_data = [0, 0], s_type = 4, s_flags = 0\<rparr>)\<rparr>"

definition ex_bare_alg :: X509_ALGOR where
  "ex_bare_alg = \<lparr>algorithm = Some NID_id_PasswordBasedMAC, parameter = None\<rparr>"

definition ex_with_alg :: "X509_ALGOR \<Rightarrow> OSSL_CMP_MSG" where
  "ex_with_alg alg = ex_cmp_msg\<lparr>header := (header ex_cmp_msg)\<lparr>protectionAlg := Some alg\<rparr>\<rparr>"

definition ex_prot :: ASN1_STRING where
  "ex_prot = \<lparr>s_data = [0xA0, 0x00], s_type = 3, s_flags = 8\<rparr>"

definition ex_cert1 :: X509 where
  "ex_cert1 = X509 [1]"

definition ex_cert2 :: X509 where
  "ex_cert2 = X509 [2]"

section \<open>Properties of the store\<close>

subsection \<open>Scheme candidates\<close>

lemma takeWhile_neq_append:
  "c \<notin> set xs \<Longrightarrow> takeWhile (\<lambda>x. x \<noteq> c) (xs @ ys) = xs @ takeWhile (\<lambda>x. x \<noteq> c) ys"
  by (induction xs) auto

lemma takeWhile_neq_stop:
  "c \<notin> set xs \<Longrightarrow> takeWhile (\<lambda>x. x \<noteq> c) (xs @ c # ys) = xs"
  by (induction xs) auto

lemma dropWhile_neq_stop:
  "c \<notin> set xs \<Longrightarrow> dropWhile (\<lambda>x. x \<noteq> c) (xs @ c # ys) = c # ys"
  by (induction xs) auto

lemma c_str_append_colon:
  "CHR 0x00 \<notin> set sch \<Longrightarrow> c_str (sch @ CHR '':'' # rest) = sch @ CHR '':'' # c_str rest"
  by (simp add: c_str_def takeWhile_neq_append)

lemma c_str_no_colon: "CHR '':'' \<notin> set uri \<Longrightarrow> CHR '':'' \<notin> set (OPENSSL_strlcpy uri n)"
  by (auto simp: OPENSSL_strlcpy_def c_str_def dest: in_set_takeD set_takeWhileD)

lemma strlcpy_split:
  assumes "CHR 0x00 \<notin> set sch" "length sch < n - 1"
  shows "OPENSSL_strlcpy (sch @ CHR '':'' # rest) n
           = sch @ CHR '':'' # take (n - 2 - length sch) (c_str rest)"
proof -
  from assms(2) have "n - 1 - length sch = Suc (n - 2 - length sch)" by arith
  with assms show ?thesis
    by (simp add: OPENSSL_strlcpy_def c_str_append_colon)
qed

text \<open>The candidates of a URI whose first colon lies within the copy.\<close>

lemma store_schemes_split:
  assumes "CHR '':'' \<notin> set sch" "CHR 0x00 \<notin> set sch" "length sch < 255"
  shows "store_schemes (sch @ CHR '':'' # rest) =
           (if \<not> strcasecmp_eq sch ''file'' then
              (if strncmp_eq (take (254 - length sch) (c_str rest)) ''//'' 2 then [] else [''file''])
                 @ [sch]
            else [''file''])"
proof -
  have "OPENSSL_strlcpy (sch @ CHR '':'' # rest) 256
           = sch @ CHR '':'' # take (254 - length sch) (c_str rest)"
    using strlcpy_split[OF assms(2), of 256 rest] assms(3) by simp
  with assms(1) show ?thesis
    by (simp add: store_schemes_def Let_def takeWhile_neq_stop dropWhile_neq_stop)
qed

lemma store_schemes_bare: "CHR '':'' \<notin> set uri \<Longrightarrow> store_schemes uri = [''file'']"
  using c_str_no_colon[of uri 256] by (simp add: store_schemes_def Let_def)

lemma c_tolower_colon: "c_tolower CHR '':'' = CHR '':''"
  by code_simp

lemma c_tolower_nul: "c_tolower CHR 0x00 = CHR 0x00"
  by code_simp

lemma c_tolower_file: "map c_tolower ''file'' = ''file''"
  by code_simp

lemma strcasecmp_file:
  assumes "strcasecmp_eq pre ''file''"
  shows "CHR '':'' \<notin> set pre \<and> CHR 0x00 \<notin> set pre \<and> length pre = 4"
proof -
  from assms have m: "map c_tolower pre = ''file''"
    unfolding strcasecmp_eq_def c_tolower_file .
  from arg_cong[OF m, of length] have l: "length pre = 4" by simp
  from arg_cong[OF m, of set] have "c_tolower ` set pre = set ''file''" by simp
  then have "c \<in> set pre \<Longrightarrow> c_tolower c \<in> set ''file''" for c
    by blast
  then have "c \<in> set pre \<Longrightarrow> c \<noteq> CHR '':'' \<and> c \<noteq> CHR 0x00" for c
    using c_tolower_colon c_tolower_nul by fastforce
  with l show ?thesis by blast
qed

lemma store_schemes_file:
  "strcasecmp_eq pre ''file'' \<Longrightarrow> store_schemes (pre @ '':'' @ rest) = [''file'']"
  using store_schemes_split[of pre rest] strcasecmp_file[of pre] by simp

lemma strncmp_take:
  "strncmp_eq (take k p) ''//'' 2 \<Longrightarrow> strncmp_eq p ''//'' 2"
  by (cases "2 \<le> k")
     (auto simp: strncmp_eq_def min_def split: if_splits dest: arg_cong[where f=length])

lemma store_schemes_authority:
  assumes "CHR '':'' \<notin> set sch" "CHR 0x00 \<notin> set sch" "length sch \<le> 252"
    "\<not> strcasecmp_eq sch ''file''"
  shows "store_schemes (sch @ ''://'' @ rest) = [sch]"
proof -
  have "strncmp_eq (take (254 - length sch) (c_str (''//'' @ rest))) ''//'' 2"
    using assms(3) by (simp add: strncmp_eq_def c_str_def take_Cons')
  with store_schemes_split[OF assms(1,2), of "''//'' @ rest"] assms(3,4) show ?thesis
    by simp
qed

lemma store_schemes_opaque:
  assumes "CHR '':'' \<notin> set sch" "CHR 0x00 \<notin> set sch" "length sch \<le> 254"
    "\<not> strcasecmp_eq sch ''file''" "\<not> strncmp_eq (c_str path) ''//'' 2"
  shows "store_schemes (sch @ '':'' @ path) = [''file'', sch]"
  using store_schemes_split[OF assms(1,2), of path] assms(3,4,5)
    strncmp_take[of "254 - length sch" "c_str path"]
  by auto

lemma store_schemes_nonempty: "store_schemes uri \<noteq> []"
  by (simp add: store_schemes_def Let_def)

subsection \<open>The loader loop tries the candidates in order\<close>

lemma open_loop_trace:
  "open_loop E uri propq ss st tr = Inr (st', tr') \<Longrightarrow>
     \<exists>k\<le>length ss. tr' = tr @ take k ss
        \<and> (ol_loader_ctx st = None \<and> ss \<noteq> [] \<longrightarrow> 0 < k)
        \<and> (ol_loader_ctx st' = None \<longrightarrow> k = length ss)"
proof (induction ss arbitrary: st tr)
  case Nil
  then show ?case by simp
next
  case (Cons s ss)
  show ?case
  proof (cases "ol_loader_ctx st = None")
    case False
    with Cons.prems have "st' = st" "tr' = tr" by auto
    with False show ?thesis by (intro exI[of _ 0]) simp
  next
    case True
    with Cons.prems obtain st1 where t: "open_try E uri propq s st = Inr st1"
      and l: "open_loop E uri propq ss st1 (tr @ [s]) = Inr (st', tr')"
      by (auto split: sum.splits)
    from Cons.IH[OF l] show ?thesis
    proof (elim exE conjE)
      fix k
      assume "k \<le> length ss" "tr' = (tr @ [s]) @ take k ss"
        "ol_loader_ctx st' = None \<longrightarrow> k = length ss"
      then have "Suc k \<le> length (s # ss) \<and> tr' = tr @ take (Suc k) (s # ss)
          \<and> (ol_loader_ctx st = None \<and> s # ss \<noteq> [] \<longrightarrow> 0 < Suc k)
          \<and> (ol_loader_ctx st' = None \<longrightarrow> Suc k = length (s # ss))"
        by simp
      then show ?thesis by (rule exI[of _ "Suc k"])
    qed
  qed
qed

lemma open_resolve_trace:
  assumes "open_resolve E uri propq = Inr (st, tr)"
  shows "(\<exists>k. 0 < k \<and> tr = take k (store_schemes uri))
           \<and> (ol_loader_ctx st = None \<longrightarrow> tr = store_schemes uri)"
proof -
  from open_loop_trace[OF assms[unfolded open_resolve_def]] store_schemes_nonempty[of uri]
  obtain k where "k \<le> length (store_schemes uri)" "tr = take k (store_schemes uri)" "0 < k"
    "ol_loader_ctx st = None \<longrightarrow> k = length (store_schemes uri)"
    by auto
  then show ?thesis by auto
qed

subsection \<open>What a pull leaves unchanged\<close>

lemma session_kept_trans: "session_kept a b \<Longrightarrow> session_kept b c \<Longrightarrow> session_kept a c"
  by (simp add: session_kept_def)

lemma load_pull_Inl_kept: "load_pull ctx = Inl c \<Longrightarrow> session_kept ctx c"
  by (auto simp: load_pull_def session_kept_def Let_def
           split: option.splits list.splits prod.splits if_splits)

lemma load_pull_Inr_kept: "load_pull ctx = Inr (v, c) \<Longrightarrow> session_kept ctx c"
  by (auto simp: load_pull_def session_kept_def Let_def
           split: option.splits list.splits prod.splits if_splits)

lemma load_pass_Again_kept: "load_pass E ctx = Again c \<Longrightarrow> session_kept ctx c"
  unfolding load_pass_def
  by (auto simp: session_kept_def
           split: if_splits sum.splits prod.splits option.splits
           dest!: load_pull_Inl_kept load_pull_Inr_kept)

lemma load_pass_Return_kept: "load_pass E ctx = Return v c \<Longrightarrow> session_kept ctx c"
  unfolding load_pass_def
  by (auto simp: session_kept_def
           split: if_splits sum.splits prod.splits option.splits
           dest!: load_pull_Inl_kept load_pull_Inr_kept)

lemma load_again_kept:
  assumes "load_again E ctx = Some y"
  shows "session_kept ctx (snd y)"
proof -
  have step: "session_kept ctx (snd y)"
    if IH: "\<And>E c y. again E c = Some y \<Longrightarrow> session_kept c (snd y)"
      and eq: "(case load_pass E ctx of Again c \<Rightarrow> again E c | Return v c \<Rightarrow> Some (v, c)) = Some y"
    for again :: "('a, 'b) store_env \<Rightarrow> ('a, 'b, 'c) OSSL_STORE_CTX
                    \<Rightarrow> (OSSL_STORE_INFO option \<times> ('a, 'b, 'c) OSSL_STORE_CTX) option"
      and E ctx y
  proof (cases "load_pass E ctx")
    case (Again c)
    with eq have "session_kept c (snd y)" by (simp add: IH)
    with Again show ?thesis
      by (blast intro: session_kept_trans dest: load_pass_Again_kept)
  next
    case (Return v c)
    with eq have "y = (v, c)" by simp
    with Return show ?thesis
      by (auto dest: load_pass_Return_kept)
  qed
  show ?thesis
    by (rule load_again.raw_induct [where P = "\<lambda>E ctx y. session_kept ctx (snd y)", OF step assms])
qed

lemma OSSL_STORE_load_loading:
  "OSSL_STORE_load E ctx = Some (v, c) \<Longrightarrow> loading c = 1"
  by (auto simp: OSSL_STORE_load_def session_kept_def dest!: load_again_kept)

lemma OSSL_STORE_load_kept:
  "OSSL_STORE_load E ctx = Some (v, c) \<Longrightarrow> loading ctx \<noteq> 0 \<Longrightarrow>
     loading c \<noteq> 0 \<and> expected_type c = expected_type ctx
     \<and> fetched_loader c = fetched_loader ctx \<and> loader c = loader ctx
     \<and> (error_flag ctx = 1 \<longrightarrow> error_flag c = 1)"
  by (auto simp: OSSL_STORE_load_def session_kept_def dest!: load_again_kept)

lemma OSSL_STORE_expect_loading:
  "loading ctx \<noteq> 0 \<Longrightarrow> OSSL_STORE_expect ctx t = (0, ctx, [OSSL_STORE_R_LOADING_STARTED])"
  by (simp add: OSSL_STORE_expect_def)

lemma OSSL_STORE_find_loading:
  "loading ctx \<noteq> 0 \<Longrightarrow> OSSL_STORE_find E ctx s = (0, ctx, [OSSL_STORE_R_LOADING_STARTED])"
  by (simp add: OSSL_STORE_find_def)

lemma store_calls_loading:
  "store_calls E cs ctx = Some c \<Longrightarrow> loading ctx \<noteq> 0 \<Longrightarrow>
     loading c \<noteq> 0 \<and> expected_type c = expected_type ctx
     \<and> fetched_loader c = fetched_loader ctx \<and> loader c = loader ctx
     \<and> (error_flag ctx = 1 \<longrightarrow> error_flag c = 1)"
proof (induction cs arbitrary: ctx)
  case Nil
  then show ?case by simp
next
  case (Cons call cs)
  show ?case
  proof (cases call)
    case Call_load
    with Cons.prems obtain v c1 where l: "OSSL_STORE_load E ctx = Some (v, c1)"
      and r: "store_calls E cs c1 = Some c"
      by (auto split: option.splits)
    from OSSL_STORE_load_kept[OF l Cons.prems(2)] Cons.IH[OF r] show ?thesis by simp
  next
    case (Call_expect t)
    with Cons.prems have "store_calls E cs ctx = Some c"
      by (simp add: OSSL_STORE_expect_loading)
    with Cons.IH Cons.prems(2) show ?thesis by blast
  next
    case (Call_find s)
    with Cons.prems have "store_calls E cs ctx = Some c"
      by (simp add: OSSL_STORE_find_loading)
    with Cons.IH Cons.prems(2) show ?thesis by blast
  qed
qed

subsection \<open>A failed pull on a fetched loader\<close>

lemma store_calls_error_flag:
  "store_calls E cs ctx = Some c \<Longrightarrow> error_flag ctx = 1 \<Longrightarrow> fetched_loader ctx = Some fl \<Longrightarrow>
     error_flag c = 1 \<and> fetched_loader c = Some fl"
proof (induction cs arbitrary: ctx)
  case Nil
  then show ?case by simp
next
  case (Cons call cs)
  show ?case
  proof (cases call)
    case Call_load
    with Cons.prems obtain v c1 where l: "load_again E (ctx\<lparr>loading := 1\<rparr>) = Some (v, c1)"
      and r: "store_calls E cs c1 = Some c"
      by (auto simp: OSSL_STORE_load_def split: option.splits)
    from load_again_kept[OF l] Cons.prems(2,3)
    have "error_flag c1 = 1" "fetched_loader c1 = Some fl"
      by (simp_all add: session_kept_def)
    with Cons.IH[OF r] show ?thesis by simp
  next
    case (Call_expect t)
    with Cons.prems obtain r c1 errs where e: "OSSL_STORE_expect ctx t = (r, c1, errs)"
      and s: "store_calls E cs c1 = Some c"
      by (auto split: prod.splits)
    from e Cons.prems(2,3) have "error_flag c1 = 1" "fetched_loader c1 = Some fl"
      by (auto simp: OSSL_STORE_expect_def Let_def split: if_splits option.splits prod.splits)
    with Cons.IH[OF s] show ?thesis by simp
  next
    case (Call_find q)
    with Cons.prems obtain r c1 errs where e: "OSSL_STORE_find E ctx q = (r, c1, errs)"
      and s: "store_calls E cs c1 = Some c"
      by (auto split: prod.splits)
    from e Cons.prems(2,3) have "error_flag c1 = 1" "fetched_loader c1 = Some fl"
      by (auto simp: OSSL_STORE_find_def split: if_splits option.splits prod.splits)
    with Cons.IH[OF s] show ?thesis by simp
  qed
qed

lemma load_pull_fetched_failure:
  assumes "fetched_loader ctx = Some fl"
    and "cached_info ctx = None \<or> cached_info ctx = Some []"
    and "p_load fl (loader_ctx ctx) (pwdata ctx) = (0, v, lc, pw)"
  shows "load_pull ctx =
           Inl (ctx\<lparr>cached_info := None, loader_ctx := lc, pwdata := pw,
                    error_flag := (if p_eof (loader ctx) lc = 0 then 1 else error_flag ctx)\<rparr>)"
  using assms by (auto simp: load_pull_def OSSL_STORE_eof_def)

lemma load_again_fetched_failure:
  assumes "fetched_loader ctx = Some fl" "OSSL_STORE_eof ctx = 0"
    and "cached_info ctx = None \<or> cached_info ctx = Some []"
    and "p_load fl (loader_ctx ctx) (pwdata ctx) = (0, v, lc, pw)"
  shows "load_again E ctx =
           Some (None, ctx\<lparr>cached_info := None, loader_ctx := lc, pwdata := pw,
                    error_flag := (if p_eof (loader ctx) lc = 0 then 1 else error_flag ctx)\<rparr>)"
  by (subst load_again.simps)
     (simp add: load_pass_def assms(2) load_pull_fetched_failure[OF assms(1,3,4)])

subsection \<open>The concrete sessions\<close>

lemma ex_legacy_load:
  "OSSL_STORE_load ex_store_env (ex_legacy_ctx\<lparr>loader_ctx := n, loading := b\<rparr>)
     = Some (None, ex_legacy_ctx\<lparr>loader_ctx := Suc n, loading := 1\<rparr>)"
  unfolding OSSL_STORE_load_def
  by (subst load_again.simps)
     (simp add: load_pass_def load_pull_def OSSL_STORE_eof_def ex_legacy_ctx_def ex_loader_def
        ex_store_env_def)

lemma ex_legacy_load0:
  "OSSL_STORE_load ex_store_env ex_legacy_ctx
     = Some (None, ex_legacy_ctx\<lparr>loader_ctx := 1, loading := 1\<rparr>)"
  using ex_legacy_load[of 0 0] by (simp add: ex_legacy_ctx_def)

lemma ex_open_resolve:
  "open_resolve ex_store_env ''pkcs11:object=x'' None
     = Inr (\<lparr>ol_loader = None, ol_fetched_loader = None, ol_loader_ctx = None\<rparr>,
            [''file'', ''pkcs11''])"
proof -
  have "store_schemes ''pkcs11:object=x'' = [''file'', ''pkcs11'']" by code_simp
  then show ?thesis
    by (simp add: open_resolve_def open_try_def ex_store_env_def)
qed

lemma ex_open_resolve_file:
  "open_resolve ex_store_env ''FILE:///tmp/x.pem'' None
     = Inr (\<lparr>ol_loader = None, ol_fetched_loader = None, ol_loader_ctx = None\<rparr>, [''file''])"
proof -
  have "store_schemes ''FILE:///tmp/x.pem'' = [''file'']" by code_simp
  then show ?thesis
    by (simp add: open_resolve_def open_try_def ex_store_env_def)
qed

subsection \<open>The outcome of a failed pull on a fetched loader\<close>

lemma fetched_pull_failure:
  assumes "fetched_loader ctx = Some fl" "OSSL_STORE_eof ctx = 0"
    and "cached_info ctx = None \<or> cached_info ctx = Some []"
    and "p_load fl (loader_ctx ctx) (pwdata ctx) = (0, v, lc, pw)"
    and "ctx' = ctx\<lparr>cached_info := None, loader_ctx := lc, pwdata := pw,
                    error_flag := (if p_eof (loader ctx) lc = 0 then 1 else error_flag ctx)\<rparr>"
  shows "load_again E ctx = Some (None, ctx')
         \<and> OSSL_STORE_load E ctx = Some (None, ctx'\<lparr>loading := 1\<rparr>)
         \<and> OSSL_STORE_error ctx' = (if p_eof (loader ctx) lc = 0 then 1 else error_flag ctx)
         \<and> (p_eof (loader ctx) lc = 0 \<and> store_calls E cs ctx' = Some c
              \<longrightarrow> OSSL_STORE_error c = 1)"
proof -
  have a: "load_again E ctx = Some (None, ctx')"
    unfolding assms(5) by (rule load_again_fetched_failure[OF assms(1-4)])
  have "load_again E (ctx\<lparr>loading := 1\<rparr>) =
          Some (None, ctx\<lparr>loading := 1\<rparr>\<lparr>cached_info := None, loader_ctx := lc, pwdata := pw,
             error_flag := (if p_eof (loader (ctx\<lparr>loading := 1\<rparr>)) lc = 0 then 1
                            else error_flag (ctx\<lparr>loading := 1\<rparr>))\<rparr>)"
    by (rule load_again_fetched_failure[where fl = fl and v = v])
       (use assms(1-4) in \<open>simp_all add: OSSL_STORE_eof_def\<close>)
  then have b: "OSSL_STORE_load E ctx = Some (None, ctx'\<lparr>loading := 1\<rparr>)"
    by (simp add: OSSL_STORE_load_def assms(5))
  have f: "fetched_loader ctx' = Some fl" by (simp add: assms(1,5))
  then have c: "OSSL_STORE_error ctx' = (if p_eof (loader ctx) lc = 0 then 1 else error_flag ctx)"
    by (simp add: OSSL_STORE_error_def assms(5))
  have d: "OSSL_STORE_error c = 1" if "p_eof (loader ctx) lc = 0" "store_calls E cs ctx' = Some c"
  proof -
    from that(1) have "error_flag ctx' = 1" by (simp add: assms(5))
    from store_calls_error_flag[OF that(2) this f] show ?thesis
      by (simp add: OSSL_STORE_error_def)
  qed
  from a b c d show ?thesis by blast
qed

subsection \<open>A pull on a legacy loader\<close>

lemma load_pull_legacy_Inl:
  "load_pull ctx = Inl c \<Longrightarrow> fetched_loader ctx = None \<Longrightarrow> error_flag c = error_flag ctx"
  by (auto simp: load_pull_def Let_def split: option.splits list.splits prod.splits if_splits)

lemma load_pull_legacy_Inr:
  "load_pull ctx = Inr (v, c) \<Longrightarrow> fetched_loader ctx = None \<Longrightarrow> error_flag c = error_flag ctx"
  by (auto simp: load_pull_def Let_def split: option.splits list.splits prod.splits if_splits)

lemma load_pass_legacy_Again:
  "load_pass E ctx = Again c \<Longrightarrow> fetched_loader ctx = None \<Longrightarrow> error_flag c = error_flag ctx"
  unfolding load_pass_def
  by (auto split: if_splits sum.splits prod.splits option.splits
           dest!: load_pull_legacy_Inl load_pull_legacy_Inr)

lemma load_pass_legacy_Return:
  "load_pass E ctx = Return v c \<Longrightarrow> fetched_loader ctx = None \<Longrightarrow> error_flag c = error_flag ctx"
  unfolding load_pass_def
  by (auto split: if_splits sum.splits prod.splits option.splits
           dest!: load_pull_legacy_Inl load_pull_legacy_Inr)

lemma load_again_legacy:
  assumes "load_again E ctx = Some y"
  shows "fetched_loader ctx = None \<longrightarrow> error_flag (snd y) = error_flag ctx"
proof -
  have step: "fetched_loader ctx = None \<longrightarrow> error_flag (snd y) = error_flag ctx"
    if IH: "\<And>E c y. again E c = Some y
                \<Longrightarrow> fetched_loader c = None \<longrightarrow> error_flag (snd y) = error_flag c"
      and eq: "(case load_pass E ctx of Again c \<Rightarrow> again E c | Return v c \<Rightarrow> Some (v, c)) = Some y"
    for again :: "('a, 'b) store_env \<Rightarrow> ('a, 'b, 'c) OSSL_STORE_CTX
                    \<Rightarrow> (OSSL_STORE_INFO option \<times> ('a, 'b, 'c) OSSL_STORE_CTX) option"
      and E ctx y
  proof (cases "load_pass E ctx")
    case (Again c)
    with eq have a: "again E c = Some y" by simp
    show ?thesis
    proof
      assume l: "fetched_loader ctx = None"
      from load_pass_Again_kept[OF Again] l have "fetched_loader c = None"
        by (simp add: session_kept_def)
      with IH[OF a] have "error_flag (snd y) = error_flag c" by simp
      with load_pass_legacy_Again[OF Again l] show "error_flag (snd y) = error_flag ctx"
        by simp
    qed
  next
    case (Return v c)
    with eq have "y = (v, c)" by simp
    with Return show ?thesis
      by (auto dest: load_pass_legacy_Return)
  qed
  show ?thesis
    by (rule load_again.raw_induct
          [where P = "\<lambda>E ctx y. fetched_loader ctx = None \<longrightarrow> error_flag (snd y) = error_flag ctx",
           OF step assms])
qed

lemma legacy_load_error_flag:
  assumes "OSSL_STORE_load E s = Some (w, s')" "fetched_loader s = None"
  shows "error_flag s' = error_flag s \<and> fetched_loader s' = None \<and> loader s' = loader s"
proof -
  from assms(1) have a: "load_again E (s\<lparr>loading := 1\<rparr>) = Some (w, s')"
    by (simp add: OSSL_STORE_load_def)
  from load_again_legacy[OF a] assms(2) have "error_flag s' = error_flag s" by simp
  moreover from load_again_kept[OF a] assms(2)
  have "fetched_loader s' = None" "loader s' = loader s"
    by (simp_all add: session_kept_def)
  ultimately show ?thesis by simp
qed

section \<open>The claims about the store\<close>

text \<open>
  C7, as the code has it. A URI without a colon yields the candidate \<open>file\<close> alone. A
  URI \<open>scheme://...\<close> yields \<open>scheme\<close> alone, and a URI \<open>scheme:path\<close> whose path does
  not begin with \<open>//\<close> yields \<open>file\<close> and then \<open>scheme\<close>, both provided that the
  scheme is not \<open>file\<close> in any letter case and that the colon (with the \<open>//\<close> in the first
  form) lies within the first 255 characters, which are all that the function looks at.
  The loop looks up a non-empty initial part of the candidates in their order, and all
  of them when it ends without a loader context.
\<close>

theorem store_schemes_by_form:
  "(CHR '':'' \<notin> set uri \<longrightarrow> store_schemes uri = [''file''])
   \<and> (CHR '':'' \<notin> set sch1 \<and> CHR 0x00 \<notin> set sch1 \<and> length sch1 \<le> 252
        \<and> \<not> strcasecmp_eq sch1 ''file''
      \<longrightarrow> store_schemes (sch1 @ ''://'' @ rest) = [sch1])
   \<and> (CHR '':'' \<notin> set sch2 \<and> CHR 0x00 \<notin> set sch2 \<and> length sch2 \<le> 254
        \<and> \<not> strcasecmp_eq sch2 ''file'' \<and> \<not> strncmp_eq (c_str path) ''//'' 2
      \<longrightarrow> store_schemes (sch2 @ '':'' @ path) = [''file'', sch2])
   \<and> (open_resolve E u propq = Inr (st, tr)
      \<longrightarrow> (\<exists>k>0. tr = take k (store_schemes u))
          \<and> (ol_loader_ctx st = None \<longrightarrow> tr = store_schemes u))"
proof -
  have a: "CHR '':'' \<notin> set uri \<longrightarrow> store_schemes uri = [''file'']"
    by (intro impI) (rule store_schemes_bare)
  have b: "CHR '':'' \<notin> set sch1 \<and> CHR 0x00 \<notin> set sch1 \<and> length sch1 \<le> 252
        \<and> \<not> strcasecmp_eq sch1 ''file''
      \<longrightarrow> store_schemes (sch1 @ ''://'' @ rest) = [sch1]"
    by (intro impI, elim conjE) (rule store_schemes_authority)
  have c: "CHR '':'' \<notin> set sch2 \<and> CHR 0x00 \<notin> set sch2 \<and> length sch2 \<le> 254
        \<and> \<not> strcasecmp_eq sch2 ''file'' \<and> \<not> strncmp_eq (c_str path) ''//'' 2
      \<longrightarrow> store_schemes (sch2 @ '':'' @ path) = [''file'', sch2]"
    by (intro impI, elim conjE) (rule store_schemes_opaque)
  have d: "open_resolve E u propq = Inr (st, tr)
      \<longrightarrow> (\<exists>k>0. tr = take k (store_schemes u))
          \<and> (ol_loader_ctx st = None \<longrightarrow> tr = store_schemes u)"
    by (intro impI) (rule open_resolve_trace)
  from a b c d show ?thesis by (intro conjI)
qed

theorem store_schemes_by_form_witness:
  "CHR '':'' \<notin> set ''/tmp/x.pem'' \<and> store_schemes ''/tmp/x.pem'' = [''file'']
   \<and> CHR '':'' \<notin> set ''http'' \<and> CHR 0x00 \<notin> set ''http'' \<and> length ''http'' \<le> 252
   \<and> \<not> strcasecmp_eq ''http'' ''file''
   \<and> store_schemes (''http'' @ ''://'' @ ''host/x.pem'') = [''http'']
   \<and> CHR '':'' \<notin> set ''pkcs11'' \<and> CHR 0x00 \<notin> set ''pkcs11'' \<and> length ''pkcs11'' \<le> 254
   \<and> \<not> strcasecmp_eq ''pkcs11'' ''file'' \<and> \<not> strncmp_eq (c_str ''object=x'') ''//'' 2
   \<and> store_schemes (''pkcs11'' @ '':'' @ ''object=x'') = [''file'', ''pkcs11'']
   \<and> open_resolve ex_store_env ''pkcs11:object=x'' None
        = Inr (\<lparr>ol_loader = None, ol_fetched_loader = None, ol_loader_ctx = None\<rparr>,
               [''file'', ''pkcs11''])
   \<and> [''file'', ''pkcs11''] = store_schemes ''pkcs11:object=x''"
proof -
  have h1: "CHR '':'' \<notin> set ''/tmp/x.pem''" by simp
  have h2: "CHR '':'' \<notin> set ''http'' \<and> CHR 0x00 \<notin> set ''http'' \<and> length ''http'' \<le> 252
      \<and> \<not> strcasecmp_eq ''http'' ''file''"
    by code_simp
  have h3: "CHR '':'' \<notin> set ''pkcs11'' \<and> CHR 0x00 \<notin> set ''pkcs11'' \<and> length ''pkcs11'' \<le> 254
      \<and> \<not> strcasecmp_eq ''pkcs11'' ''file'' \<and> \<not> strncmp_eq (c_str ''object=x'') ''//'' 2"
    by code_simp
  note h4 = ex_open_resolve
  have n: "ol_loader_ctx \<lparr>ol_loader = None, ol_fetched_loader = None,
             ol_loader_ctx = (None :: nat option)\<rparr> = None"
    by simp
  note t = store_schemes_by_form[of "''/tmp/x.pem''" "''http''" "''host/x.pem''" "''pkcs11''"
      "''object=x''" ex_store_env "''pkcs11:object=x''" None
      "\<lparr>ol_loader = None, ol_fetched_loader = None, ol_loader_ctx = None\<rparr>"
      "[''file'', ''pkcs11'']"]
  from t h1 have c1: "store_schemes ''/tmp/x.pem'' = [''file'']" by blast
  from t h2 have c2: "store_schemes (''http'' @ ''://'' @ ''host/x.pem'') = [''http'']"
    by blast
  from t h3 have c3: "store_schemes (''pkcs11'' @ '':'' @ ''object=x'') = [''file'', ''pkcs11'']"
    by blast
  from t h4 n have c4: "[''file'', ''pkcs11''] = store_schemes ''pkcs11:object=x''"
    by blast
  from h1 h2 h3 h4 c1 c2 c3 c4 show ?thesis by (intro conjI; blast)
qed

text \<open>
  C7 as stated fails: for \<open>file:path\<close>, a URI of the form \<open>scheme:path\<close> without
  \<open>//\<close>, the candidates are \<open>file\<close> alone and not \<open>file\<close> followed by the scheme.
\<close>

theorem store_schemes_file_path_counterexample:
  "store_schemes (''file'' @ '':'' @ ''path'') = [''file'']
   \<and> store_schemes (''file'' @ '':'' @ ''path'') \<noteq> [''file'', ''file'']"
  by code_simp

text \<open>
  C10. For a URI whose text before the first colon is \<open>file\<close> in any letter case, the
  candidates are \<open>file\<close> alone, whatever follows the colon (\<open>//\<close> included), and
  \<open>file\<close> is the one scheme that the loop looks up.
\<close>

theorem store_schemes_file_prefix:
  "strcasecmp_eq pre ''file'' \<Longrightarrow>
     store_schemes (pre @ '':'' @ rest) = [''file'']
     \<and> (open_resolve E (pre @ '':'' @ rest) propq = Inr (st, tr) \<longrightarrow> tr = [''file''])"
proof -
  assume h: "strcasecmp_eq pre ''file''"
  have s: "store_schemes (pre @ '':'' @ rest) = [''file'']"
    by (rule store_schemes_file[OF h])
  have "tr = [''file'']" if "open_resolve E (pre @ '':'' @ rest) propq = Inr (st, tr)"
  proof -
    from open_resolve_trace[OF that] s obtain k where "0 < k" "tr = take k [''file'']"
      by auto
    then show ?thesis by (cases k) simp_all
  qed
  with s show ?thesis by blast
qed

theorem store_schemes_file_prefix_witness:
  "strcasecmp_eq ''FILE'' ''file''
   \<and> store_schemes (''FILE'' @ '':'' @ ''///tmp/x.pem'') = [''file'']
   \<and> open_resolve ex_store_env (''FILE'' @ '':'' @ ''///tmp/x.pem'') None
        = Inr (\<lparr>ol_loader = None, ol_fetched_loader = None, ol_loader_ctx = None\<rparr>, [''file''])"
proof -
  have h: "strcasecmp_eq ''FILE'' ''file''" by code_simp
  from store_schemes_file_prefix[OF h, where rest = "''///tmp/x.pem''" and E = ex_store_env
      and propq = None and tr = "[''file'']"
      and st = "\<lparr>ol_loader = None, ol_fetched_loader = None, ol_loader_ctx = None\<rparr>"]
    h ex_open_resolve_file
  show ?thesis by simp
qed

text \<open>
  C8. Once \<open>OSSL_STORE_load\<close> has returned on a session, then after any later calls of
  \<open>OSSL_STORE_load\<close>, \<open>OSSL_STORE_expect\<close> and \<open>OSSL_STORE_find\<close> that return, a
  call of \<open>OSSL_STORE_expect\<close> or \<open>OSSL_STORE_find\<close> returns 0, raises
  \<open>OSSL_STORE_R_LOADING_STARTED\<close> and leaves the session as it was; the expected type
  is still the one from before the first load.
\<close>

theorem filters_frozen_after_load:
  assumes "OSSL_STORE_load E ctx0 = Some (v, ctx1)"
    and "store_calls E cs ctx1 = Some ctx"
  shows "OSSL_STORE_expect ctx t = (0, ctx, [OSSL_STORE_R_LOADING_STARTED])
         \<and> OSSL_STORE_find E ctx q = (0, ctx, [OSSL_STORE_R_LOADING_STARTED])
         \<and> expected_type ctx = expected_type ctx0"
proof -
  from OSSL_STORE_load_loading[OF assms(1)] have l1: "loading ctx1 \<noteq> 0" by simp
  from assms(1) have "expected_type ctx1 = expected_type ctx0"
    by (auto simp: OSSL_STORE_load_def session_kept_def dest!: load_again_kept)
  with store_calls_loading[OF assms(2) l1]
  have "loading ctx \<noteq> 0" "expected_type ctx = expected_type ctx0" by simp_all
  then show ?thesis
    by (simp add: OSSL_STORE_expect_loading OSSL_STORE_find_loading)
qed

theorem filters_frozen_after_load_witness:
  "OSSL_STORE_load ex_store_env ex_legacy_ctx
     = Some (None, ex_legacy_ctx\<lparr>loader_ctx := 1, loading := 1\<rparr>)
   \<and> store_calls ex_store_env [Call_expect 3, Call_load, Call_find ex_search]
        (ex_legacy_ctx\<lparr>loader_ctx := 1, loading := 1\<rparr>)
     = Some (ex_legacy_ctx\<lparr>loader_ctx := 2, loading := 1\<rparr>)
   \<and> OSSL_STORE_expect (ex_legacy_ctx\<lparr>loader_ctx := 2, loading := 1\<rparr>) 3
     = (0, ex_legacy_ctx\<lparr>loader_ctx := 2, loading := 1\<rparr>, [OSSL_STORE_R_LOADING_STARTED])
   \<and> OSSL_STORE_find ex_store_env (ex_legacy_ctx\<lparr>loader_ctx := 2, loading := 1\<rparr>) ex_search
     = (0, ex_legacy_ctx\<lparr>loader_ctx := 2, loading := 1\<rparr>, [OSSL_STORE_R_LOADING_STARTED])
   \<and> expected_type (ex_legacy_ctx\<lparr>loader_ctx := 2, loading := 1\<rparr>) = expected_type ex_legacy_ctx"
proof -
  note h1 = ex_legacy_load0
  have h2: "store_calls ex_store_env [Call_expect 3, Call_load, Call_find ex_search]
        (ex_legacy_ctx\<lparr>loader_ctx := 1, loading := 1\<rparr>)
     = Some (ex_legacy_ctx\<lparr>loader_ctx := 2, loading := 1\<rparr>)"
    using ex_legacy_load[of 1 1]
    by (simp add: OSSL_STORE_expect_def OSSL_STORE_find_def)
  from filters_frozen_after_load[OF h1 h2, of 3 ex_search] h1 h2 show ?thesis by simp
qed

text \<open>
  C9, as the code has it. On a session with a fetched loader that is not at the end of
  its data and has nothing cached, when \<open>p_load\<close> returns 0, \<open>OSSL_STORE_load\<close>
  returns \<open>NULL\<close> (from the label \<open>again\<close> too, so after ignored objects as well), and
  \<open>error_flag\<close> is 1 if the loader is not at its end afterwards, and unchanged if it is.
  A flag of 1 is what \<open>OSSL_STORE_error\<close> returns then and after any later calls on the
  session. On a session with a legacy loader \<open>OSSL_STORE_load\<close> leaves \<open>error_flag\<close>
  as it was, and \<open>OSSL_STORE_error\<close> returns what the loader's \<open>error\<close> function says
  of the loader context, before and after the call.
\<close>

theorem pull_failure_error_flag:
  "(fetched_loader ctx = Some fl \<and> OSSL_STORE_eof ctx = 0
      \<and> (cached_info ctx = None \<or> cached_info ctx = Some [])
      \<and> p_load fl (loader_ctx ctx) (pwdata ctx) = (0, v, lc, pw)
      \<and> ctx' = ctx\<lparr>cached_info := None, loader_ctx := lc, pwdata := pw,
                    error_flag := (if p_eof (loader ctx) lc = 0 then 1 else error_flag ctx)\<rparr>
    \<longrightarrow> load_again E ctx = Some (None, ctx')
        \<and> OSSL_STORE_load E ctx = Some (None, ctx'\<lparr>loading := 1\<rparr>)
        \<and> OSSL_STORE_error ctx' = (if p_eof (loader ctx) lc = 0 then 1 else error_flag ctx)
        \<and> (p_eof (loader ctx) lc = 0 \<and> store_calls E cs ctx' = Some c
             \<longrightarrow> OSSL_STORE_error c = 1))
   \<and> (fetched_loader s = None
    \<longrightarrow> OSSL_STORE_error s = error (loader s) (loader_ctx s)
        \<and> (OSSL_STORE_load E s = Some (w, s')
             \<longrightarrow> error_flag s' = error_flag s
                 \<and> OSSL_STORE_error s' = error (loader s) (loader_ctx s')))"
proof (intro conjI impI)
  assume h: "fetched_loader ctx = Some fl \<and> OSSL_STORE_eof ctx = 0
      \<and> (cached_info ctx = None \<or> cached_info ctx = Some [])
      \<and> p_load fl (loader_ctx ctx) (pwdata ctx) = (0, v, lc, pw)
      \<and> ctx' = ctx\<lparr>cached_info := None, loader_ctx := lc, pwdata := pw,
                    error_flag := (if p_eof (loader ctx) lc = 0 then 1 else error_flag ctx)\<rparr>"
  then have h1: "fetched_loader ctx = Some fl" and h2: "OSSL_STORE_eof ctx = 0"
    and h3: "cached_info ctx = None \<or> cached_info ctx = Some []"
    and h4: "p_load fl (loader_ctx ctx) (pwdata ctx) = (0, v, lc, pw)"
    and h5: "ctx' = ctx\<lparr>cached_info := None, loader_ctx := lc, pwdata := pw,
                    error_flag := (if p_eof (loader ctx) lc = 0 then 1 else error_flag ctx)\<rparr>"
    by blast+
  note f = fetched_pull_failure[OF h1 h2 h3 h4 h5, of E cs c]
  from f show "load_again E ctx = Some (None, ctx')" by blast
  from f show "OSSL_STORE_load E ctx = Some (None, ctx'\<lparr>loading := 1\<rparr>)" by blast
  from f show "OSSL_STORE_error ctx' = (if p_eof (loader ctx) lc = 0 then 1 else error_flag ctx)"
    by blast
  from f show "OSSL_STORE_error c = 1" if "p_eof (loader ctx) lc = 0 \<and> store_calls E cs ctx' = Some c"
    using that by blast
next
  assume l: "fetched_loader s = None"
  then show "OSSL_STORE_error s = error (loader s) (loader_ctx s)"
    by (simp add: OSSL_STORE_error_def)
  show "error_flag s' = error_flag s" if "OSSL_STORE_load E s = Some (w, s')"
    using legacy_load_error_flag[OF that l] by blast
  show "OSSL_STORE_error s' = error (loader s) (loader_ctx s')" if "OSSL_STORE_load E s = Some (w, s')"
    using legacy_load_error_flag[OF that l] by (simp add: OSSL_STORE_error_def)
qed

theorem pull_failure_error_flag_witness:
  "fetched_loader ex_fetched_ctx = Some ex_loader \<and> OSSL_STORE_eof ex_fetched_ctx = 0
   \<and> (cached_info ex_fetched_ctx = None \<or> cached_info ex_fetched_ctx = Some [])
   \<and> p_load ex_loader (loader_ctx ex_fetched_ctx) (pwdata ex_fetched_ctx) = (0, None, 1, ())
   \<and> p_eof (loader ex_fetched_ctx) 1 = 0
   \<and> store_calls ex_store_env [Call_expect 3]
        (ex_fetched_ctx\<lparr>loader_ctx := 1, error_flag := 1\<rparr>)
      = Some (ex_fetched_ctx\<lparr>loader_ctx := 1, error_flag := 1, expected_type := 3\<rparr>)
   \<and> OSSL_STORE_load ex_store_env ex_fetched_ctx
      = Some (None, ex_fetched_ctx\<lparr>loader_ctx := 1, error_flag := 1, loading := 1\<rparr>)
   \<and> OSSL_STORE_error (ex_fetched_ctx\<lparr>loader_ctx := 1, error_flag := 1\<rparr>) = 1
   \<and> OSSL_STORE_error (ex_fetched_ctx\<lparr>loader_ctx := 1, error_flag := 1, expected_type := 3\<rparr>) = 1
   \<and> fetched_loader ex_legacy_ctx = None
   \<and> OSSL_STORE_load ex_store_env ex_legacy_ctx
      = Some (None, ex_legacy_ctx\<lparr>loader_ctx := 1, loading := 1\<rparr>)
   \<and> error_flag (ex_legacy_ctx\<lparr>loader_ctx := 1, loading := 1\<rparr>) = error_flag ex_legacy_ctx
   \<and> OSSL_STORE_error (ex_legacy_ctx\<lparr>loader_ctx := 1, loading := 1\<rparr>)
      = error (loader ex_legacy_ctx) 1"
proof -
  let ?c1 = "ex_fetched_ctx\<lparr>loader_ctx := 1, error_flag := 1\<rparr>"
  let ?c2 = "ex_fetched_ctx\<lparr>loader_ctx := 1, error_flag := 1, expected_type := 3\<rparr>"
  let ?s1 = "ex_legacy_ctx\<lparr>loader_ctx := 1, loading := 1\<rparr>"
  have h1: "fetched_loader ex_fetched_ctx = Some ex_loader"
    by (simp add: ex_fetched_ctx_def)
  have h2: "OSSL_STORE_eof ex_fetched_ctx = 0"
    by (simp add: ex_fetched_ctx_def ex_legacy_ctx_def ex_loader_def OSSL_STORE_eof_def)
  have h3: "cached_info ex_fetched_ctx = None \<or> cached_info ex_fetched_ctx = Some []"
    by (simp add: ex_fetched_ctx_def ex_legacy_ctx_def)
  have h4: "p_load ex_loader (loader_ctx ex_fetched_ctx) (pwdata ex_fetched_ctx) = (0, None, 1, ())"
    by (simp add: ex_fetched_ctx_def ex_legacy_ctx_def ex_loader_def)
  have e: "p_eof (loader ex_fetched_ctx) 1 = 0"
    by (simp add: ex_fetched_ctx_def ex_legacy_ctx_def ex_loader_def)
  have h5: "?c1 = ex_fetched_ctx\<lparr>cached_info := None, loader_ctx := 1, pwdata := (),
           error_flag := (if p_eof (loader ex_fetched_ctx) 1 = 0 then 1
                          else error_flag ex_fetched_ctx)\<rparr>"
    by (simp add: ex_fetched_ctx_def ex_legacy_ctx_def ex_loader_def)
  have h6: "store_calls ex_store_env [Call_expect 3] ?c1 = Some ?c2"
    by (simp add: OSSL_STORE_expect_def ex_fetched_ctx_def ex_legacy_ctx_def ex_loader_def)
  have l1: "fetched_loader ex_legacy_ctx = None" by (simp add: ex_legacy_ctx_def)
  note l2 = ex_legacy_load0
  note t = pull_failure_error_flag[where ctx = ex_fetched_ctx and fl = ex_loader and v = None
      and lc = 1 and pw = "()" and ctx' = ?c1 and E = ex_store_env and cs = "[Call_expect 3]"
      and c = ?c2 and s = ex_legacy_ctx and w = None and s' = ?s1]
  from t h1 h2 h3 h4 h5
  have p1: "OSSL_STORE_load ex_store_env ex_fetched_ctx = Some (None, ?c1\<lparr>loading := 1\<rparr>)"
    by blast
  from t h1 h2 h3 h4 h5
  have p2: "OSSL_STORE_error ?c1
      = (if p_eof (loader ex_fetched_ctx) 1 = 0 then 1 else error_flag ex_fetched_ctx)"
    by blast
  from t h1 h2 h3 h4 h5 e h6 have p3: "OSSL_STORE_error ?c2 = 1" by blast
  from t l1 l2 have p4: "error_flag ?s1 = error_flag ex_legacy_ctx" by blast
  from t l1 l2 have p5: "OSSL_STORE_error ?s1 = error (loader ex_legacy_ctx) (loader_ctx ?s1)"
    by blast
  from p2 e have p2': "OSSL_STORE_error ?c1 = 1" by simp
  from p5 have p5': "OSSL_STORE_error ?s1 = error (loader ex_legacy_ctx) 1" by simp
  from h1 h2 h3 h4 e h6 p1 p2' p3 l1 l2 p4 p5' show ?thesis by simp
qed

text \<open>
  C9 as stated fails on a session with a legacy loader: the loader's \<open>load\<close> returns
  \<open>NULL\<close> while the loader is not at its end, \<open>OSSL_STORE_load\<close> returns \<open>NULL\<close>, and
  the session's \<open>error_flag\<close> stays 0; \<open>OSSL_STORE_error\<close> asks the loader, which here
  answers 0.
\<close>

theorem legacy_pull_failure_counterexample:
  "OSSL_STORE_load ex_store_env ex_legacy_ctx
     = Some (None, ex_legacy_ctx\<lparr>loader_ctx := 1, loading := 1\<rparr>)
   \<and> OSSL_STORE_eof (ex_legacy_ctx\<lparr>loader_ctx := 1, loading := 1\<rparr>) = 0
   \<and> error_flag (ex_legacy_ctx\<lparr>loader_ctx := 1, loading := 1\<rparr>) = 0
   \<and> OSSL_STORE_error (ex_legacy_ctx\<lparr>loader_ctx := 1, loading := 1\<rparr>) = 0"
  by (simp add: ex_legacy_load0)
     (simp add: ex_legacy_ctx_def ex_loader_def OSSL_STORE_eof_def OSSL_STORE_error_def)

section \<open>Properties of the protection code\<close>

subsection \<open>The flags of the MAC bit string\<close>

lemma bits_left_flags: "((f AND NOT (0x08 OR 0x07)) OR 0x08) AND 0x0F = (0x08 :: int)"
proof -
  have a: "(0x08 OR 0x07 :: int) = 0x0F" by simp
  have b: "(f AND NOT 0x0F) AND 0x0F = (0 :: int)"
    by (simp add: and.assoc)
  have c: "(0x08 :: int) AND 0x0F = 0x08" by simp
  show ?thesis
    unfolding a by (simp only: bit.conj_disj_distrib2 b c) simp
qed

subsection \<open>Adding certificates without duplicates\<close>

lemma X509_add_cert_distinct:
  "X509_add_cert E sk c flags = (r, sk') \<Longrightarrow> X509_ADD_FLAG_NO_DUP \<in> flags \<Longrightarrow> distinct sk \<Longrightarrow>
     distinct sk'"
  by (auto simp: X509_add_cert_def split: if_splits)

lemma X509_add_certs_loop_distinct:
  "X509_add_certs_loop E sk cs flags = (r, sk') \<Longrightarrow> X509_ADD_FLAG_NO_DUP \<in> flags \<Longrightarrow>
     distinct sk \<Longrightarrow> distinct sk'"
proof (induction cs arbitrary: sk)
  case Nil
  then show ?case by simp
next
  case (Cons c cs)
  obtain r1 sk1 where a: "X509_add_cert E sk c flags = (r1, sk1)"
    by (cases "X509_add_cert E sk c flags")
  from X509_add_cert_distinct[OF a Cons.prems(2,3)] have d: "distinct sk1" .
  show ?case
  proof (cases "r1 = 0")
    case True
    with Cons.prems(1) a have "sk' = sk1" by simp
    with d show ?thesis by simp
  next
    case False
    with Cons.prems(1) a have "X509_add_certs_loop E sk1 cs flags = (r, sk')" by simp
    from Cons.IH[OF this Cons.prems(2) d] show ?thesis .
  qed
qed

lemma X509_add_certs_distinct:
  "X509_add_certs E sk certs flags = (r, sk') \<Longrightarrow> X509_ADD_FLAG_NO_DUP \<in> flags \<Longrightarrow>
     distinct sk \<Longrightarrow> distinct sk'"
  by (cases certs) (auto simp: X509_add_certs_def dest: X509_add_certs_loop_distinct)

text \<open>The list after the part of the function that adds the own certificate and its chain.\<close>

lemma own_certs_distinct:
  assumes "(case (cert ctx, pkey ctx) of
              (Some c, Some k) \<Rightarrow>
                (case X509_add_cert E sk0 c
                        {X509_ADD_FLAG_UP_REF, X509_ADD_FLAG_NO_DUP, X509_ADD_FLAG_PREPEND} of
                   (r, sk) \<Rightarrow>
                     if r = 0 then (0, sk)
                     else
                       (case untrusted_certs ctx of
                          None \<Rightarrow> (1, sk)
                        | Some untrusted \<Rightarrow>
                            X509_add_certs E sk (ossl_cmp_build_cert_chain E untrusted c)
                              {X509_ADD_FLAG_UP_REF, X509_ADD_FLAG_NO_DUP, X509_ADD_FLAG_NO_SS}))
            | _ \<Rightarrow> (1, sk0)) = (r1 :: int, sk1)"
    and "distinct sk0"
  shows "distinct sk1"
proof (cases "cert ctx")
  case None
  with assms show ?thesis by simp
next
  case (Some c)
  show ?thesis
  proof (cases "pkey ctx")
    case None
    with Some assms show ?thesis by simp
  next
    case (Some k)
    obtain r sk where a: "X509_add_cert E sk0 c
        {X509_ADD_FLAG_UP_REF, X509_ADD_FLAG_NO_DUP, X509_ADD_FLAG_PREPEND} = (r, sk)"
      by (cases "X509_add_cert E sk0 c
        {X509_ADD_FLAG_UP_REF, X509_ADD_FLAG_NO_DUP, X509_ADD_FLAG_PREPEND}")
    from X509_add_cert_distinct[OF a _ assms(2)] have d: "distinct sk" by simp
    from assms(1) \<open>cert ctx = Some c\<close> Some a d show ?thesis
      by (auto split: if_splits option.splits dest!: X509_add_certs_distinct)
  qed
qed

lemma add_extraCerts_distinct:
  assumes "ossl_cmp_msg_add_extraCerts E ctx msg = (r, msg')"
    and "case extraCerts msg of None \<Rightarrow> True | Some sk \<Rightarrow> distinct sk"
  shows "case extraCerts msg' of None \<Rightarrow> True | Some sk \<Rightarrow> distinct sk"
proof (cases "extraCerts msg = None \<and> \<not> alloc_ok E Alloc_sk_X509_new_null")
  case True
  with assms show ?thesis by (simp add: ossl_cmp_msg_add_extraCerts_def)
next
  case False
  define sk0 where "sk0 = (case extraCerts msg of None \<Rightarrow> [] | Some sk \<Rightarrow> sk)"
  from assms(2) have d0: "distinct sk0" by (simp add: sk0_def split: option.splits)
  obtain r1 sk1 where own: "(case (cert ctx, pkey ctx) of
              (Some c, Some k) \<Rightarrow>
                (case X509_add_cert E sk0 c
                        {X509_ADD_FLAG_UP_REF, X509_ADD_FLAG_NO_DUP, X509_ADD_FLAG_PREPEND} of
                   (r, sk) \<Rightarrow>
                     if r = 0 then (0, sk)
                     else
                       (case untrusted_certs ctx of
                          None \<Rightarrow> (1, sk)
                        | Some untrusted \<Rightarrow>
                            X509_add_certs E sk (ossl_cmp_build_cert_chain E untrusted c)
                              {X509_ADD_FLAG_UP_REF, X509_ADD_FLAG_NO_DUP, X509_ADD_FLAG_NO_SS}))
            | _ \<Rightarrow> (1, sk0)) = (r1 :: int, sk1)"
    by fastforce
  from own_certs_distinct[OF own d0] have d1: "distinct sk1" .
  obtain r2 sk2 where out: "X509_add_certs E sk1 (extraCertsOut ctx)
      {X509_ADD_FLAG_UP_REF, X509_ADD_FLAG_NO_DUP} = (r2, sk2)"
    by fastforce
  from X509_add_certs_distinct[OF out _ d1] have d2: "distinct sk2" by simp
  from assms(1) False own out
  have "extraCerts msg' = Some sk1 \<or> extraCerts msg' = Some sk2 \<or> extraCerts msg' = None"
    unfolding ossl_cmp_msg_add_extraCerts_def Let_def sk0_def[symmetric]
    by (auto split: if_splits)
  with d1 d2 show ?thesis by auto
qed

lemma add_extraCerts_not_empty:
  assumes "ossl_cmp_msg_add_extraCerts E ctx msg = (r, msg')" "r \<noteq> 0"
  shows "extraCerts msg' \<noteq> Some []"
  using assms unfolding ossl_cmp_msg_add_extraCerts_def Let_def
  by (auto split: if_splits prod.splits)

lemma add_extraCerts_frame:
  assumes "ossl_cmp_msg_add_extraCerts E ctx msg = (r, msg')"
  shows "header msg' = header msg \<and> body msg' = body msg \<and> protection msg' = protection msg"
  using assms unfolding ossl_cmp_msg_add_extraCerts_def Let_def
  by (auto split: if_splits prod.splits)

subsection \<open>The entries of the list are kept\<close>

lemma keeps_trans:
  assumes "\<exists>f b. sk1 = f @ sk0 @ b" "\<exists>f b. sk2 = f @ sk1 @ (b :: 'a list)"
  shows "\<exists>f b. sk2 = f @ sk0 @ b"
proof -
  from assms obtain f1 b1 f2 b2 where "sk1 = f1 @ sk0 @ b1" "sk2 = f2 @ sk1 @ b2"
    by (elim exE)
  then have "sk2 = (f2 @ f1) @ sk0 @ (b1 @ b2)" by simp
  then show ?thesis by (intro exI)
qed

lemma keeps_refl: "\<exists>f b. sk = f @ sk @ (b :: 'a list)"
proof -
  have "sk = [] @ sk @ []" by simp
  then show ?thesis by (intro exI)
qed

lemma X509_add_cert_keeps:
  assumes "X509_add_cert E sk c flags = (r, sk')"
  shows "\<exists>f b. sk' = f @ sk @ b"
proof -
  from assms have "sk' = sk \<or> sk' = c # sk \<or> sk' = sk @ [c]"
    by (auto simp: X509_add_cert_def split: if_splits)
  then show ?thesis
  proof (elim disjE)
    assume "sk' = sk"
    then show ?thesis by (simp add: keeps_refl)
  next
    assume "sk' = c # sk"
    then have "sk' = [c] @ sk @ []" by simp
    then show ?thesis by (intro exI)
  next
    assume "sk' = sk @ [c]"
    then have "sk' = [] @ sk @ [c]" by simp
    then show ?thesis by (intro exI)
  qed
qed

lemma X509_add_certs_loop_keeps:
  "X509_add_certs_loop E sk cs flags = (r, sk') \<Longrightarrow> \<exists>f b. sk' = f @ sk @ b"
proof (induction cs arbitrary: sk)
  case Nil
  then show ?case by (simp add: keeps_refl)
next
  case (Cons c cs)
  obtain r1 sk1 where a: "X509_add_cert E sk c flags = (r1, sk1)"
    by (cases "X509_add_cert E sk c flags")
  note k1 = X509_add_cert_keeps[OF a]
  show ?case
  proof (cases "r1 = 0")
    case True
    with Cons.prems a have "sk' = sk1" by simp
    with k1 show ?thesis by simp
  next
    case False
    with Cons.prems a have "X509_add_certs_loop E sk1 cs flags = (r, sk')" by simp
    from keeps_trans[OF k1 Cons.IH[OF this]] show ?thesis .
  qed
qed

lemma X509_add_certs_keeps:
  assumes "X509_add_certs E sk certs flags = (r, sk')"
  shows "\<exists>f b. sk' = f @ sk @ b"
proof (cases certs)
  case None
  with assms have "sk' = sk" by (simp add: X509_add_certs_def)
  then show ?thesis by (simp add: keeps_refl)
next
  case (Some cs)
  with assms show ?thesis
    by (simp add: X509_add_certs_def X509_add_certs_loop_keeps)
qed

lemma own_certs_keeps:
  assumes "(case (cert ctx, pkey ctx) of
              (Some c, Some k) \<Rightarrow>
                (case X509_add_cert E sk0 c
                        {X509_ADD_FLAG_UP_REF, X509_ADD_FLAG_NO_DUP, X509_ADD_FLAG_PREPEND} of
                   (r, sk) \<Rightarrow>
                     if r = 0 then (0, sk)
                     else
                       (case untrusted_certs ctx of
                          None \<Rightarrow> (1, sk)
                        | Some untrusted \<Rightarrow>
                            X509_add_certs E sk (ossl_cmp_build_cert_chain E untrusted c)
                              {X509_ADD_FLAG_UP_REF, X509_ADD_FLAG_NO_DUP, X509_ADD_FLAG_NO_SS}))
            | _ \<Rightarrow> (1, sk0)) = (r1 :: int, sk1)"
  shows "\<exists>f b. sk1 = f @ sk0 @ b"
proof (cases "cert ctx")
  case None
  with assms have "sk1 = sk0" by simp
  then show ?thesis by (simp add: keeps_refl)
next
  case (Some c)
  note crt = Some
  show ?thesis
  proof (cases "pkey ctx")
    case None
    with crt assms have "sk1 = sk0" by simp
    then show ?thesis by (simp add: keeps_refl)
  next
    case (Some k)
    obtain r sk where a: "X509_add_cert E sk0 c
        {X509_ADD_FLAG_UP_REF, X509_ADD_FLAG_NO_DUP, X509_ADD_FLAG_PREPEND} = (r, sk)"
      by (cases "X509_add_cert E sk0 c
        {X509_ADD_FLAG_UP_REF, X509_ADD_FLAG_NO_DUP, X509_ADD_FLAG_PREPEND}")
    note k0 = X509_add_cert_keeps[OF a]
    show ?thesis
    proof (cases "r = 0 \<or> untrusted_certs ctx = None")
      case True
      with assms crt Some a have "sk1 = sk" by (auto split: if_splits)
      with k0 show ?thesis by simp
    next
      case False
      then obtain untrusted where u: "untrusted_certs ctx = Some untrusted" and r: "r \<noteq> 0"
        by auto
      with assms crt Some a
      have "X509_add_certs E sk (ossl_cmp_build_cert_chain E untrusted c)
              {X509_ADD_FLAG_UP_REF, X509_ADD_FLAG_NO_DUP, X509_ADD_FLAG_NO_SS} = (r1, sk1)"
        by simp
      from keeps_trans[OF k0 X509_add_certs_keeps[OF this]] show ?thesis .
    qed
  qed
qed

lemma add_extraCerts_keeps:
  assumes "ossl_cmp_msg_add_extraCerts E ctx msg = (r, msg')"
  shows "\<exists>front back.
           (case extraCerts msg' of None \<Rightarrow> [] | Some sk \<Rightarrow> sk)
             = front @ (case extraCerts msg of None \<Rightarrow> [] | Some sk \<Rightarrow> sk) @ back"
proof (cases "extraCerts msg = None \<and> \<not> alloc_ok E Alloc_sk_X509_new_null")
  case True
  with assms have "msg' = msg" by (simp add: ossl_cmp_msg_add_extraCerts_def)
  then show ?thesis by (simp add: keeps_refl)
next
  case False
  define sk0 where "sk0 = (case extraCerts msg of None \<Rightarrow> [] | Some sk \<Rightarrow> sk)"
  obtain r1 sk1 where own: "(case (cert ctx, pkey ctx) of
              (Some c, Some k) \<Rightarrow>
                (case X509_add_cert E sk0 c
                        {X509_ADD_FLAG_UP_REF, X509_ADD_FLAG_NO_DUP, X509_ADD_FLAG_PREPEND} of
                   (r, sk) \<Rightarrow>
                     if r = 0 then (0, sk)
                     else
                       (case untrusted_certs ctx of
                          None \<Rightarrow> (1, sk)
                        | Some untrusted \<Rightarrow>
                            X509_add_certs E sk (ossl_cmp_build_cert_chain E untrusted c)
                              {X509_ADD_FLAG_UP_REF, X509_ADD_FLAG_NO_DUP, X509_ADD_FLAG_NO_SS}))
            | _ \<Rightarrow> (1, sk0)) = (r1 :: int, sk1)"
    by fastforce
  note k1 = own_certs_keeps[OF own]
  obtain r2 sk2 where out: "X509_add_certs E sk1 (extraCertsOut ctx)
      {X509_ADD_FLAG_UP_REF, X509_ADD_FLAG_NO_DUP} = (r2, sk2)"
    by fastforce
  note k2 = keeps_trans[OF k1 X509_add_certs_keeps[OF out]]
  from assms False own out
  have "(case extraCerts msg' of None \<Rightarrow> [] | Some sk \<Rightarrow> sk) = sk1
        \<or> (case extraCerts msg' of None \<Rightarrow> [] | Some sk \<Rightarrow> sk) = sk2"
    unfolding ossl_cmp_msg_add_extraCerts_def Let_def sk0_def[symmetric]
    by (auto split: if_splits)
  with k1 k2 show ?thesis unfolding sk0_def by auto
qed

subsection \<open>The steps of \<open>ossl_cmp_msg_protect\<close>\<close>



lemma calc_protection_Some:
  "ossl_cmp_calc_protection E ctx msg = (Some prot, e) \<Longrightarrow>
     protectionAlg (header msg) \<noteq> None \<and> e = []"
  by (auto simp: ossl_cmp_calc_protection_def Let_def
           split: option.splits prod.splits if_splits)




lemma protect_strip_idem:
  "protect_strip (msg\<lparr>header := (header msg)\<lparr>protectionAlg := a\<rparr>, protection := p\<rparr>)
     = protect_strip msg"
  by (simp add: protect_strip_def)


section \<open>The claims about message protection\<close>

text \<open>
  C6, as the code has it. The certificates that \<open>ossl_cmp_msg_add_extraCerts\<close> adds are
  skipped when they are in the list already, so a message whose list of extra
  certificates has no duplicate (an absent list for one) has none afterwards, whether
  the call succeeds or not; and after a successful call the list is never present and
  empty. The entries that the message comes with are kept, in their order and with
  their duplicates, as one stretch of the list afterwards.
\<close>

theorem add_extraCerts_no_duplicates:
  assumes "ossl_cmp_msg_add_extraCerts E ctx msg = (r, msg')"
  shows "((case extraCerts msg of None \<Rightarrow> True | Some sk \<Rightarrow> distinct sk)
            \<longrightarrow> (case extraCerts msg' of None \<Rightarrow> True | Some sk \<Rightarrow> distinct sk))
         \<and> (r \<noteq> 0 \<longrightarrow> extraCerts msg' \<noteq> Some [])
         \<and> (\<exists>front back.
               (case extraCerts msg' of None \<Rightarrow> [] | Some sk \<Rightarrow> sk)
                 = front @ (case extraCerts msg of None \<Rightarrow> [] | Some sk \<Rightarrow> sk) @ back)"
  using add_extraCerts_distinct[OF assms] add_extraCerts_not_empty[OF assms]
    add_extraCerts_keeps[OF assms]
  by blast

lemma ex_add_extraCerts:
  "ossl_cmp_msg_add_extraCerts ex_cmp_env
     (ex_cmp_ctx\<lparr>cert := Some ex_cert1, pkey := Some (EVP_PKEY 6 []),
        extraCertsOut := Some [ex_cert1, ex_cert2, ex_cert2]\<rparr>) ex_cmp_msg
     = (1, ex_cmp_msg\<lparr>extraCerts := Some [ex_cert1, ex_cert2]\<rparr>)"
  by (simp add: ossl_cmp_msg_add_extraCerts_def X509_add_certs_def X509_add_cert_def
      ex_cmp_env_def ex_cmp_ctx_def ex_cmp_msg_def ex_cert1_def ex_cert2_def)

theorem add_extraCerts_no_duplicates_witness:
  "ossl_cmp_msg_add_extraCerts ex_cmp_env
     (ex_cmp_ctx\<lparr>cert := Some ex_cert1, pkey := Some (EVP_PKEY 6 []),
        extraCertsOut := Some [ex_cert1, ex_cert2, ex_cert2]\<rparr>) ex_cmp_msg
     = (1, ex_cmp_msg\<lparr>extraCerts := Some [ex_cert1, ex_cert2]\<rparr>)
   \<and> (case extraCerts ex_cmp_msg of None \<Rightarrow> True | Some sk \<Rightarrow> distinct sk)
   \<and> (1 :: int) \<noteq> 0
   \<and> distinct [ex_cert1, ex_cert2]
   \<and> extraCerts (ex_cmp_msg\<lparr>extraCerts := Some [ex_cert1, ex_cert2]\<rparr>) \<noteq> Some []"
proof -
  have h: "case extraCerts ex_cmp_msg of None \<Rightarrow> True | Some sk \<Rightarrow> distinct sk"
    by (simp add: ex_cmp_msg_def)
  from add_extraCerts_no_duplicates[OF ex_add_extraCerts] h ex_add_extraCerts
  show ?thesis by simp
qed

text \<open>
  C6 as stated fails for a message that comes with a certificate twice in its list:
  with nothing to add the call succeeds and the list still holds it twice.
\<close>

theorem add_extraCerts_duplicates_counterexample:
  "ossl_cmp_msg_add_extraCerts ex_cmp_env ex_cmp_ctx
     (ex_cmp_msg\<lparr>extraCerts := Some [ex_cert1, ex_cert1]\<rparr>)
     = (1, ex_cmp_msg\<lparr>extraCerts := Some [ex_cert1, ex_cert1]\<rparr>)
   \<and> \<not> distinct [ex_cert1, ex_cert1]"
  by (simp add: ossl_cmp_msg_add_extraCerts_def X509_add_certs_def
      ex_cmp_ctx_def ex_cmp_msg_def)

text \<open>
  C4, as the code has it. On the password-based-MAC path of
  \<open>ossl_cmp_calc_protection\<close> the shared secret is looked at first: without it the
  call fails with \<open>CMP_R_MISSING_PBM_SECRET\<close>, whatever the descriptor holds. With a
  secret and a descriptor without parameters it fails with
  \<open>CMP_R_ERROR_CALCULATING_PROTECTION\<close>. \<open>CMP_R_UNKNOWN_ALGORITHM_ID\<close> is not raised
  on this path.
\<close>

theorem calc_protection_pbm_checks:
  assumes "protectionAlg (header msg) = Some alg"
    and "OBJ_obj2nid (algorithm alg) = NID_id_PasswordBasedMAC"
  shows "(secretValue ctx = None
            \<longrightarrow> ossl_cmp_calc_protection E ctx msg = (None, [CMP_R_MISSING_PBM_SECRET]))
         \<and> (secretValue ctx \<noteq> None \<and> parameter alg = None
            \<longrightarrow> ossl_cmp_calc_protection E ctx msg
                  = (None, [CMP_R_ERROR_CALCULATING_PROTECTION]))
         \<and> CMP_R_UNKNOWN_ALGORITHM_ID \<notin> set (snd (ossl_cmp_calc_protection E ctx msg))"
proof (intro conjI impI)
  assume "secretValue ctx = None"
  with assms show "ossl_cmp_calc_protection E ctx msg = (None, [CMP_R_MISSING_PBM_SECRET])"
    by (cases "parameter alg") (auto simp: ossl_cmp_calc_protection_def X509_ALGOR_get0_def)
next
  assume "secretValue ctx \<noteq> None \<and> parameter alg = None"
  with assms show "ossl_cmp_calc_protection E ctx msg
      = (None, [CMP_R_ERROR_CALCULATING_PROTECTION])"
    by (auto simp: ossl_cmp_calc_protection_def X509_ALGOR_get0_def)
next
  from assms show "CMP_R_UNKNOWN_ALGORITHM_ID \<notin> set (snd (ossl_cmp_calc_protection E ctx msg))"
    by (cases "parameter alg")
       (auto simp: ossl_cmp_calc_protection_def X509_ALGOR_get0_def Let_def
             split: option.splits)
qed

theorem calc_protection_pbm_checks_witness:
  "protectionAlg (header (ex_with_alg ex_bare_alg)) = Some ex_bare_alg
   \<and> OBJ_obj2nid (algorithm ex_bare_alg) = NID_id_PasswordBasedMAC
   \<and> secretValue (ex_cmp_ctx\<lparr>secretValue := None\<rparr>) = None
   \<and> ossl_cmp_calc_protection ex_cmp_env (ex_cmp_ctx\<lparr>secretValue := None\<rparr>)
        (ex_with_alg ex_bare_alg) = (None, [CMP_R_MISSING_PBM_SECRET])
   \<and> secretValue ex_cmp_ctx \<noteq> None \<and> parameter ex_bare_alg = None
   \<and> ossl_cmp_calc_protection ex_cmp_env ex_cmp_ctx (ex_with_alg ex_bare_alg)
        = (None, [CMP_R_ERROR_CALCULATING_PROTECTION])"
proof -
  have h1: "protectionAlg (header (ex_with_alg ex_bare_alg)) = Some ex_bare_alg"
    by (simp add: ex_with_alg_def)
  have h2: "OBJ_obj2nid (algorithm ex_bare_alg) = NID_id_PasswordBasedMAC"
    by (simp add: ex_bare_alg_def OBJ_obj2nid_def)
  have h3: "secretValue (ex_cmp_ctx\<lparr>secretValue := None\<rparr>) = None" by simp
  have h4: "secretValue ex_cmp_ctx \<noteq> None \<and> parameter ex_bare_alg = None"
    by (simp add: ex_cmp_ctx_def ex_bare_alg_def)
  from calc_protection_pbm_checks[OF h1 h2, of "ex_cmp_ctx\<lparr>secretValue := None\<rparr>" ex_cmp_env]
    calc_protection_pbm_checks[OF h1 h2, of ex_cmp_ctx ex_cmp_env] h1 h2 h3 h4
  show ?thesis by blast
qed

text \<open>
  C4 as stated fails: for a descriptor without parameters and a context without shared
  secret the one reason raised is \<open>CMP_R_MISSING_PBM_SECRET\<close>, so the secret is
  checked before the parameters, and no \<open>CMP_R_UNKNOWN_ALGORITHM_ID\<close> is raised.
\<close>

theorem calc_protection_order_counterexample:
  "ossl_cmp_calc_protection ex_cmp_env (ex_cmp_ctx\<lparr>secretValue := None\<rparr>)
     (ex_with_alg ex_bare_alg) = (None, [CMP_R_MISSING_PBM_SECRET])
   \<and> CMP_R_UNKNOWN_ALGORITHM_ID
       \<notin> set (snd (ossl_cmp_calc_protection ex_cmp_env (ex_cmp_ctx\<lparr>secretValue := None\<rparr>)
                      (ex_with_alg ex_bare_alg)))"
  by (simp add: ossl_cmp_calc_protection_def X509_ALGOR_get0_def OBJ_obj2nid_def
      ex_with_alg_def ex_bare_alg_def ex_cmp_msg_def)

text \<open>
  C5, as the code has it. The bit string returned on the password-based-MAC path has
  \<open>ASN1_STRING_FLAG_BITS_LEFT\<close> set and the count of unused bits in the low three bits
  of its flags fixed at 0, and its bytes are the MAC as computed, nothing trimmed.
\<close>

theorem calc_protection_pbm_bits_left:
  assumes "protectionAlg (header msg) = Some alg"
    and "OBJ_obj2nid (algorithm alg) = NID_id_PasswordBasedMAC"
    and "ossl_cmp_calc_protection E ctx msg = (Some prot, errs)"
  shows "s_flags prot AND 0x0F = ASN1_STRING_FLAG_BITS_LEFT
         \<and> s_flags prot AND 0x07 = 0
         \<and> (\<exists>secret pbm_str der pbm.
               secretValue ctx = Some secret
               \<and> parameter alg = Some pbm_str
               \<and> i2d_OSSL_CMP_PROTECTEDPART E (header msg) (body msg) = Some der
               \<and> d2i_OSSL_CRMF_PBMPARAMETER E (s_data (snd pbm_str)) = Some pbm
               \<and> OSSL_CRMF_pbm_new E pbm der secret = Some (s_data prot))"
proof -
  from assms obtain secret t v der pbm mac prot0 where
    s: "secretValue ctx = Some secret" and p: "parameter alg = Some (t, v)"
    and d: "i2d_OSSL_CMP_PROTECTEDPART E (header msg) (body msg) = Some der"
    and q: "d2i_OSSL_CRMF_PBMPARAMETER E (s_data v) = Some pbm"
    and m: "OSSL_CRMF_pbm_new E pbm der secret = Some mac"
    and n: "ASN1_BIT_STRING_new E = Some prot0"
    and r: "ASN1_BIT_STRING_set E
              (prot0\<lparr>s_flags := (s_flags prot0 AND NOT (0x08 OR 0x07)) OR 0x08\<rparr>) mac
            = Some prot"
    by (auto simp: ossl_cmp_calc_protection_def X509_ALGOR_get0_def Let_def
          ASN1_STRING_FLAG_BITS_LEFT_def split: option.splits prod.splits)
  from r have f: "s_flags prot = (s_flags prot0 AND NOT (0x08 OR 0x07)) OR 0x08"
    and e: "s_data prot = mac"
    by (auto simp: ASN1_BIT_STRING_set_def ASN1_STRING_set_def split: if_splits)
  have a: "s_flags prot AND 0x0F = ASN1_STRING_FLAG_BITS_LEFT"
    unfolding f ASN1_STRING_FLAG_BITS_LEFT_def by (rule bits_left_flags)
  have "s_flags prot AND 0x07 = (s_flags prot AND 0x0F) AND 0x07"
    by (simp add: and.assoc)
  also have "\<dots> = 0" unfolding a ASN1_STRING_FLAG_BITS_LEFT_def by simp
  finally have b: "s_flags prot AND 0x07 = 0" .
  from s p d q m e a b show ?thesis by auto
qed

lemma ex_calc_protection:
  "ossl_cmp_calc_protection ex_cmp_env ex_cmp_ctx (ex_with_alg ex_pbm_alg) = (Some ex_prot, [])"
  by (simp add: ossl_cmp_calc_protection_def ex_cmp_env_def ex_cmp_ctx_def ex_with_alg_def
      ex_cmp_msg_def ex_pbm_alg_def ex_prot_def X509_ALGOR_get0_def OBJ_obj2nid_def
      ASN1_BIT_STRING_set_def ASN1_STRING_set_def ASN1_STRING_FLAG_BITS_LEFT_def
      NID_id_PasswordBasedMAC_def V_ASN1_SEQUENCE_def)

theorem calc_protection_pbm_bits_left_witness:
  "protectionAlg (header (ex_with_alg ex_pbm_alg)) = Some ex_pbm_alg
   \<and> OBJ_obj2nid (algorithm ex_pbm_alg) = NID_id_PasswordBasedMAC
   \<and> ossl_cmp_calc_protection ex_cmp_env ex_cmp_ctx (ex_with_alg ex_pbm_alg)
       = (Some ex_prot, [])
   \<and> s_flags ex_prot AND 0x0F = ASN1_STRING_FLAG_BITS_LEFT
   \<and> s_flags ex_prot AND 0x07 = 0"
proof -
  have h1: "protectionAlg (header (ex_with_alg ex_pbm_alg)) = Some ex_pbm_alg"
    by (simp add: ex_with_alg_def)
  have h2: "OBJ_obj2nid (algorithm ex_pbm_alg) = NID_id_PasswordBasedMAC"
    by (simp add: ex_pbm_alg_def OBJ_obj2nid_def)
  from calc_protection_pbm_bits_left[OF h1 h2 ex_calc_protection] h1 h2 ex_calc_protection
  show ?thesis by blast
qed

text \<open>
  C5 as stated fails: for a MAC of the bytes \<open>A0 00\<close> the bit string returned keeps
  both bytes and has the count of unused bits 0 under \<open>ASN1_STRING_FLAG_BITS_LEFT\<close>,
  where the named-bit-list form has the one byte \<open>A0\<close> and 5 unused bits.
\<close>

theorem calc_protection_unused_bits_counterexample:
  "ossl_cmp_calc_protection ex_cmp_env ex_cmp_ctx (ex_with_alg ex_pbm_alg)
     = (Some \<lparr>s_data = [0xA0, 0x00], s_type = 3, s_flags = 0x08\<rparr>, [])
   \<and> (0x08 :: int) AND ASN1_STRING_FLAG_BITS_LEFT \<noteq> 0
   \<and> (0x08 :: int) AND 0x07 = 0
   \<and> named_bit_list [0xA0, 0x00] = ([0xA0], 5)
   \<and> named_bit_list [0xA0, 0x00] \<noteq> ([0xA0, 0x00], 0)"
proof -
  have a: "named_bit_list [0xA0, 0x00] = ([0xA0], 5)" by code_simp
  have b: "(0x08 :: int) AND ASN1_STRING_FLAG_BITS_LEFT \<noteq> 0"
    by (simp add: ASN1_STRING_FLAG_BITS_LEFT_def)
  have c: "(0x08 :: int) AND 0x07 = 0" by simp
  from ex_calc_protection a b c show ?thesis by (simp add: ex_prot_def)
qed

subsection \<open>The sample run of \<open>ossl_cmp_msg_protect\<close>\<close>

lemma replicate_two: "replicate 2 x = [x, x]"
  by (simp add: numeral_2_eq_2)

lemma ex_protect_strip: "protect_strip ex_cmp_msg = ex_cmp_msg"
  by (simp add: protect_strip_def ex_cmp_msg_def)

lemma ex_protect_credentials:
  "protect_credentials ex_cmp_env ex_cmp_ctx (protect_strip ex_cmp_msg)
     = (True, ex_with_alg ex_pbm_alg, [])"
  by (simp add: ex_protect_strip)
     (simp add: protect_credentials_def set_pbmac_algor_def set_senderKID_def
        X509_ALGOR_set0_def ASN1_STRING_set_def EVP_MD_type_def ex_cmp_env_def ex_cmp_ctx_def
        ex_cmp_msg_def ex_with_alg_def ex_pbm_alg_def V_ASN1_SEQUENCE_def V_ASN1_UNDEF_def replicate_two)

lemma ex_protect_add_extraCerts:
  "ossl_cmp_msg_add_extraCerts ex_cmp_env ex_cmp_ctx
     ((ex_with_alg ex_pbm_alg)\<lparr>protection := Some ex_prot\<rparr>)
     = (1, (ex_with_alg ex_pbm_alg)\<lparr>protection := Some ex_prot\<rparr>)"
  by (simp add: ossl_cmp_msg_add_extraCerts_def X509_add_certs_def ex_cmp_env_def
      ex_cmp_ctx_def ex_cmp_msg_def ex_with_alg_def)

lemma ex_set_pbmac_algor: "set_pbmac_algor ex_cmp_env ex_cmp_ctx None = (1, Some ex_pbm_alg)"
  by (simp add: set_pbmac_algor_def X509_ALGOR_set0_def ASN1_STRING_set_def EVP_MD_type_def
      ex_cmp_env_def ex_cmp_ctx_def ex_pbm_alg_def V_ASN1_SEQUENCE_def V_ASN1_UNDEF_def replicate_two)


lemma ex_protect_with_reference:
  "ossl_cmp_msg_protect ex_cmp_env
     (ex_cmp_ctx\<lparr>referenceValue := Some [7], cert := Some ex_cert1, pkey := Some (EVP_PKEY 6 [])\<rparr>)
     ex_cmp_msg
     = (1, ex_cmp_msg\<lparr>header := (header ex_cmp_msg)\<lparr>senderKID := Some [7],
                                      protectionAlg := Some ex_pbm_alg\<rparr>,
                       protection := Some ex_prot, extraCerts := Some [ex_cert1]\<rparr>, [])"
  by (simp add: ossl_cmp_msg_protect_def protect_strip_def protect_credentials_def
      set_pbmac_algor_def set_senderKID_def ossl_cmp_hdr_set1_senderKID_def
      ossl_cmp_msg_add_extraCerts_def X509_add_certs_def X509_add_cert_def
      ossl_cmp_calc_protection_def ex_cmp_env_def ex_cmp_ctx_def ex_cmp_msg_def ex_pbm_alg_def
      ex_prot_def X509_ALGOR_get0_def X509_ALGOR_set0_def OBJ_obj2nid_def EVP_MD_type_def
      ASN1_BIT_STRING_set_def ASN1_STRING_set_def ASN1_STRING_FLAG_BITS_LEFT_def
      NID_id_PasswordBasedMAC_def V_ASN1_SEQUENCE_def V_ASN1_UNDEF_def replicate_two)



text \<open>
  C2. What \<open>ossl_cmp_msg_protect\<close> returns does not depend on the
  \<open>protectionAlg\<close> and \<open>protection\<close> that the message comes with, which it clears
  first; and with \<open>unprotectedSend\<close> set it returns 1 at once, raises nothing, and the
  message is the given one with the two fields absent.
\<close>

theorem protect_strips_first:
  "ossl_cmp_msg_protect E ctx (msg\<lparr>header := (header msg)\<lparr>protectionAlg := a\<rparr>, protection := p\<rparr>)
     = ossl_cmp_msg_protect E ctx msg
   \<and> (unprotectedSend ctx \<noteq> 0
      \<longrightarrow> ossl_cmp_msg_protect E ctx msg
            = (1, msg\<lparr>header := (header msg)\<lparr>protectionAlg := None\<rparr>, protection := None\<rparr>, []))"
proof -
  have "ossl_cmp_msg_protect E ctx
          (msg\<lparr>header := (header msg)\<lparr>protectionAlg := a\<rparr>, protection := p\<rparr>)
        = ossl_cmp_msg_protect E ctx msg"
    unfolding ossl_cmp_msg_protect_def protect_strip_idem ..
  moreover have "unprotectedSend ctx \<noteq> 0
      \<longrightarrow> ossl_cmp_msg_protect E ctx msg
            = (1, msg\<lparr>header := (header msg)\<lparr>protectionAlg := None\<rparr>, protection := None\<rparr>, [])"
    by (simp add: ossl_cmp_msg_protect_def protect_strip_def)
  ultimately show ?thesis by (rule conjI)
qed

theorem protect_strips_first_witness:
  "unprotectedSend (ex_cmp_ctx\<lparr>unprotectedSend := 1\<rparr>) \<noteq> 0
   \<and> secretValue (ex_cmp_ctx\<lparr>unprotectedSend := 1\<rparr>) \<noteq> None
   \<and> ossl_cmp_msg_protect ex_cmp_env (ex_cmp_ctx\<lparr>unprotectedSend := 1\<rparr>)
        (ex_cmp_msg\<lparr>header := (header ex_cmp_msg)\<lparr>protectionAlg := Some ex_pbm_alg\<rparr>,
                    protection := Some ex_prot\<rparr>)
       = (1, ex_cmp_msg, [])"
proof -
  let ?m = "ex_cmp_msg\<lparr>header := (header ex_cmp_msg)\<lparr>protectionAlg := Some ex_pbm_alg\<rparr>,
                       protection := Some ex_prot\<rparr>"
  have h: "unprotectedSend (ex_cmp_ctx\<lparr>unprotectedSend := 1\<rparr>) \<noteq> 0" by simp
  have s: "secretValue (ex_cmp_ctx\<lparr>unprotectedSend := 1\<rparr>) \<noteq> None"
    by (simp add: ex_cmp_ctx_def)
  have m: "?m\<lparr>header := (header ?m)\<lparr>protectionAlg := None\<rparr>, protection := None\<rparr> = ex_cmp_msg"
    by (simp add: ex_cmp_msg_def)
  from protect_strips_first[where E = ex_cmp_env and ctx = "ex_cmp_ctx\<lparr>unprotectedSend := 1\<rparr>"
      and msg = ?m and a = None and p = None] h
  have "ossl_cmp_msg_protect ex_cmp_env (ex_cmp_ctx\<lparr>unprotectedSend := 1\<rparr>) ?m
      = (1, ?m\<lparr>header := (header ?m)\<lparr>protectionAlg := None\<rparr>, protection := None\<rparr>, [])"
    by blast
  with m h s show ?thesis by simp
qed

text \<open>
  C3. When the credentials branch has gone through, the protection has been computed
  and the extra certificates have been added, and the sender of the message is the
  NULL-DN while no sender key identifier is set, then \<open>ossl_cmp_msg_protect\<close> returns 0
  and raises \<open>CMP_R_MISSING_SENDER_IDENTIFICATION\<close> (followed by the closing
  \<open>CMP_R_ERROR_PROTECTING_MESSAGE\<close>), and the message keeps the protection just
  computed and its descriptor.
\<close>

theorem protect_missing_sender_identification:
  assumes "unprotectedSend ctx = 0"
    and "protect_credentials E ctx (protect_strip msg) = (True, msg1, e1)"
    and "ossl_cmp_calc_protection E ctx msg1 = (Some prot, e2)"
    and "ossl_cmp_msg_add_extraCerts E ctx (msg1\<lparr>protection := Some prot\<rparr>) = (r, msg3)"
    and "r \<noteq> 0"
    and "ossl_cmp_general_name_is_NULL_DN E (sender (header msg3))"
    and "senderKID (header msg3) = None"
  shows "ossl_cmp_msg_protect E ctx msg
           = (0, msg3, e1 @ e2 @ [CMP_R_MISSING_SENDER_IDENTIFICATION,
                                    CMP_R_ERROR_PROTECTING_MESSAGE])
         \<and> protection msg3 = Some prot
         \<and> protectionAlg (header msg3) = protectionAlg (header msg1)
         \<and> protectionAlg (header msg3) \<noteq> None"
proof -
  from add_extraCerts_frame[OF assms(4)]
  have f: "header msg3 = header msg1" "protection msg3 = Some prot" by simp_all
  from calc_protection_Some[OF assms(3)] have n: "protectionAlg (header msg1) \<noteq> None" by simp
  from assms have "ossl_cmp_msg_protect E ctx msg
           = (0, msg3, e1 @ e2 @ [CMP_R_MISSING_SENDER_IDENTIFICATION,
                                    CMP_R_ERROR_PROTECTING_MESSAGE])"
    by (simp add: ossl_cmp_msg_protect_def)
  with f n show ?thesis by simp
qed

theorem protect_missing_sender_identification_witness:
  "unprotectedSend ex_cmp_ctx = 0
   \<and> protect_credentials ex_cmp_env ex_cmp_ctx (protect_strip ex_cmp_msg)
       = (True, ex_with_alg ex_pbm_alg, [])
   \<and> ossl_cmp_calc_protection ex_cmp_env ex_cmp_ctx (ex_with_alg ex_pbm_alg)
       = (Some ex_prot, [])
   \<and> ossl_cmp_msg_add_extraCerts ex_cmp_env ex_cmp_ctx
       ((ex_with_alg ex_pbm_alg)\<lparr>protection := Some ex_prot\<rparr>)
       = (1, (ex_with_alg ex_pbm_alg)\<lparr>protection := Some ex_prot\<rparr>)
   \<and> ossl_cmp_general_name_is_NULL_DN ex_cmp_env
       (sender (header ((ex_with_alg ex_pbm_alg)\<lparr>protection := Some ex_prot\<rparr>)))
   \<and> senderKID (header ((ex_with_alg ex_pbm_alg)\<lparr>protection := Some ex_prot\<rparr>)) = None
   \<and> ossl_cmp_msg_protect ex_cmp_env ex_cmp_ctx ex_cmp_msg
       = (0, (ex_with_alg ex_pbm_alg)\<lparr>protection := Some ex_prot\<rparr>,
          [CMP_R_MISSING_SENDER_IDENTIFICATION, CMP_R_ERROR_PROTECTING_MESSAGE])
   \<and> protection ((ex_with_alg ex_pbm_alg)\<lparr>protection := Some ex_prot\<rparr>) = Some ex_prot
   \<and> protectionAlg (header ((ex_with_alg ex_pbm_alg)\<lparr>protection := Some ex_prot\<rparr>))
       = Some ex_pbm_alg"
proof -
  let ?m = "(ex_with_alg ex_pbm_alg)\<lparr>protection := Some ex_prot\<rparr>"
  have h1: "unprotectedSend ex_cmp_ctx = 0" by (simp add: ex_cmp_ctx_def)
  have h5: "(1 :: int) \<noteq> 0" by simp
  have h6: "ossl_cmp_general_name_is_NULL_DN ex_cmp_env (sender (header ?m))"
    by (simp add: ex_cmp_env_def ex_with_alg_def ex_cmp_msg_def)
  have h7: "senderKID (header ?m) = None"
    by (simp add: ex_with_alg_def ex_cmp_msg_def)
  have a: "protectionAlg (header ?m) = Some ex_pbm_alg"
    by (simp add: ex_with_alg_def)
  from protect_missing_sender_identification[OF h1 ex_protect_credentials ex_calc_protection
      ex_protect_add_extraCerts h5 h6 h7]
    h1 ex_protect_credentials ex_calc_protection ex_protect_add_extraCerts h6 h7 a
  show ?thesis by simp
qed

end
